theory Spec2Isabelle
  imports Main "HOL-Library.AList"
begin

section \<open>Data model of packages/dev-ts/src/tsconfig.js\<close>

text \<open>
  The module reads a tsconfig.json, follows its \<open>extends\<close> chain and compiles the merged
  \<open>paths\<close> into alias rules. The typedefs of the source become records; a JavaScript
  \<open>undefined\<close> (an optional field that is absent, an index past the end) is \<open>None\<close>.
\<close>

text \<open>A \<open>URL\<close> object, known by its href.\<close>

datatype URL = FileURL string

text \<open>
  A JavaScript object with string keys, as \<open>Record<string, string[]>\<close>: an association
  list in insertion order. An object holds each key once. (JavaScript enumerates keys
  that are array indices before the others; keys of \<open>paths\<close> are module specifiers,
  and no statement below depends on the order.)
\<close>

type_synonym paths_obj = "(string \<times> string list) list"

text \<open>\<open>JsonConfig = { compilerOptions?: { baseUrl?: string; paths?: ... }; extends?: string }\<close>\<close>

record CompilerOptions =
  co_baseUrl :: "string option"
  co_paths :: "paths_obj option"

record JsonConfig =
  cfg_compilerOptions :: "CompilerOptions option"
  cfg_extends :: "string option"

text \<open>\<open>PartialConfig = { paths: Record<string, string[]>; url?: URL }\<close>\<close>

record PartialConfig =
  pc_paths :: paths_obj
  pc_url :: "URL option"

text \<open>
  \<open>Alias = { filter: string[]; isWildcard?: boolean; path: string, url: URL }\<close>.
  The field \<open>path\<close> is the first element of the candidate array, which is
  \<open>undefined\<close> for an empty array.
\<close>

record Alias =
  alias_filter :: "string list"
  isWildcard :: bool
  alias_path :: "string option"
  alias_url :: URL

text \<open>
  Thrown values. \<open>SyntaxError\<close> is what the JSON5 parser throws, \<open>SystemError\<close> what
  the file system throws on a failed read, \<open>Error\<close> is the plain \<open>new Error(msg)\<close> of
  the source, \<open>RangeError\<close> is what the engine throws at a call for which the call
  stack has no room. Each carries its message.
\<close>

datatype error = SyntaxError string | SystemError string | Error string | RangeError string

fun message :: "error \<Rightarrow> string" where
  "message (SyntaxError m) = m"
| "message (SystemError m) = m"
| "message (Error m) = m"
| "message (RangeError m) = m"

text \<open>The console: what \<open>console.warn\<close> and \<open>console.error\<close> have printed, in order.\<close>

datatype console = console_warn string | console_error string

text \<open>
  The collaborators the module imports: the file system, the JSON5 parser, the path and
  url utilities of Node, and the three constants of \<open>./common.js\<close>. They are parameters
  of the model. A read can throw (a directory, a permission); the parser returns a
  \<open>JsonConfig\<close>, as the source's type annotation has it, or throws.
\<close>

record env =
  existsSync :: "string \<Rightarrow> bool"
  readFileSync :: "string \<Rightarrow> error + string"
  JSON5_parse :: "string \<Rightarrow> error + JsonConfig"
  path_join :: "string list \<Rightarrow> string"
  path_dirname :: "string \<Rightarrow> string"
  pathToFileURL :: "string \<Rightarrow> URL"
  CWD_PATH :: string
  CWD_URL :: URL
  MOD_PATH :: string

section \<open>String and object primitives of JavaScript\<close>

text \<open>
  \<open>s.split(re)\<close> for a regular expression matching one character of a class: the
  pieces between the separators, empty pieces included; the empty string gives one
  empty piece.
\<close>

fun split_on :: "(char \<Rightarrow> bool) \<Rightarrow> string \<Rightarrow> string list" where
  "split_on sep [] = ['''']"
| "split_on sep (c # cs) =
     (if sep c then [] # split_on sep cs
      else (case split_on sep cs of
              [] \<Rightarrow> [c # '''']
            | s # ss \<Rightarrow> (c # s) # ss))"

text \<open>The class \<open>[\\/]\<close>: a backslash or a forward slash.\<close>

definition is_slash :: "char \<Rightarrow> bool" where
  "is_slash c = (c = CHR 0x5C \<or> c = CHR ''/'')"

definition split_slashes :: "string \<Rightarrow> string list" where
  "split_slashes s = split_on is_slash s"

text \<open>\<open>xs.at(-1)\<close>: the last element, \<open>undefined\<close> on an empty array.\<close>

fun at_last :: "'a list \<Rightarrow> 'a option" where
  "at_last [] = None"
| "at_last [x] = Some x"
| "at_last (x # y # ys) = at_last (y # ys)"

text \<open>\<open>xs.slice(0, -1)\<close>: all but the last element.\<close>

definition slice_0_m1 :: "'a list \<Rightarrow> 'a list" where
  "slice_0_m1 xs = butlast xs"

text \<open>\<open>s.startsWith(p)\<close>\<close>

definition startsWith :: "string \<Rightarrow> string \<Rightarrow> bool" where
  "startsWith s p = (take (length p) s = p)"

text \<open>
  Object spread \<open>{...target, ...src}\<close> onto an object: each entry of \<open>src\<close> in order
  is assigned; an existing key keeps its place and takes the new value, a new key is
  appended.
\<close>

definition spread :: "paths_obj \<Rightarrow> paths_obj \<Rightarrow> paths_obj" where
  "spread target src = fold (\<lambda>(k, v). AList.update k v) src target"

text \<open>Property read \<open>obj[k]\<close>.\<close>

definition obj_get :: "paths_obj \<Rightarrow> string \<Rightarrow> string list option" where
  "obj_get obj k = map_of obj k"

section \<open>readConfigFile\<close>

text \<open>The two console messages of \<open>readConfigFile\<close>.\<close>

definition warn_missing :: "string \<Rightarrow> string option \<Rightarrow> string" where
  "warn_missing configFile fromFile =
     ''No '' @ configFile @
     (case fromFile of
        None \<Rightarrow> ''''
      | Some f \<Rightarrow> if f \<noteq> '''' then '' (extended from '' @ f @ '')'' else '''') @
     '' found, assuming defaults''"

definition fatal_parsing :: "string \<Rightarrow> error \<Rightarrow> string" where
  "fatal_parsing configFile err =
     ''FATAL: Error parsing '' @ configFile @ '':: '' @ message err"

text \<open>\<open>JSON5.parse(fs.readFileSync(configFile, 'utf8'))\<close>: either call can throw.\<close>

definition parse_file :: "env \<Rightarrow> string \<Rightarrow> error + JsonConfig" where
  "parse_file E configFile =
     (case readFileSync E configFile of
        Inl err \<Rightarrow> Inl err
      | Inr text \<Rightarrow> JSON5_parse E text)"

text \<open>
  \<open>readConfigFile (currentPath, tsconfig, fromFile)\<close>. The result is \<open>None\<close> when the
  recursion along \<open>extends\<close> never ends; otherwise the console output and either the
  thrown error or the returned \<open>PartialConfig\<close>. The \<open>try\<close> block encloses the
  recursive call, so an error thrown below is logged again here and thrown on.
  The tests \<open>if (compilerOptions?.baseUrl)\<close> and \<open>if (parentConfig)\<close> are tests for a
  truthy value: a string that is present and not empty.
\<close>

partial_function (option) readConfigFile ::
  "env \<Rightarrow> string \<Rightarrow> string \<Rightarrow> string option \<Rightarrow> (console list \<times> (error + PartialConfig)) option"
where
  "readConfigFile E currentPath tsconfig fromFile =
    (let configFile = path_join E [currentPath, tsconfig] in
     if \<not> existsSync E configFile
     then Some ([console_warn (warn_missing configFile fromFile)],
                Inr \<lparr>pc_paths = [], pc_url = None\<rparr>)
     else
       (case parse_file E configFile of
          Inl err \<Rightarrow> Some ([console_error (fatal_parsing configFile err)], Inl err)
        | Inr cfg \<Rightarrow>
           (let compilerOptions = cfg_compilerOptions cfg;
                parentConfig = cfg_extends cfg;
                url = (case compilerOptions of
                         None \<Rightarrow> None
                       | Some co \<Rightarrow>
                          (case co_baseUrl co of
                             None \<Rightarrow> None
                           | Some baseUrl \<Rightarrow>
                              if baseUrl \<noteq> ''''
                              then (let configDir = path_dirname E configFile in
                                    Some (pathToFileURL E
                                            (path_join E [configDir, baseUrl @ ''/''])))
                              else None));
                paths = (case compilerOptions of
                           None \<Rightarrow> []
                         | Some co \<Rightarrow> (case co_paths co of None \<Rightarrow> [] | Some p \<Rightarrow> p))
            in
            (case parentConfig of
               None \<Rightarrow> Some ([], Inr \<lparr>pc_paths = paths, pc_url = url\<rparr>)
             | Some parentConfig \<Rightarrow>
                if parentConfig = ''''
                then Some ([], Inr \<lparr>pc_paths = paths, pc_url = url\<rparr>)
                else
                  (let extRoot = (if startsWith parentConfig ''.''
                                  then currentPath
                                  else MOD_PATH E);
                       extSubs = split_slashes parentConfig;
                       extPath = path_join E (extRoot # slice_0_m1 extSubs)
                   in
                   Option.bind
                     (readConfigFile E extPath
                        (case at_last extSubs of None \<Rightarrow> ''tsconfig.json'' | Some t \<Rightarrow> t)
                        (Some configFile))
                     (\<lambda>r. case snd r of
                        Inl err \<Rightarrow>
                          Some (fst r @ [console_error (fatal_parsing configFile err)], Inl err)
                      | Inr extConfig \<Rightarrow>
                          Some (fst r,
                                Inr \<lparr>pc_paths = spread (spread [] (pc_paths extConfig)) paths,
                                     pc_url = (case url of
                                                 Some u \<Rightarrow> Some u
                                               | None \<Rightarrow> pc_url extConfig)\<rparr>)))))))"

section \<open>readConfigFile on a call stack of limited depth\<close>



section \<open>extractAliases\<close>

text \<open>The message of the error thrown for a misplaced wildcard.\<close>

definition fatal_wildcard :: "string \<Rightarrow> string option \<Rightarrow> string" where
  "fatal_wildcard key path =
     ''FATAL: Wildcards in tsconfig.json path entries are only supported in the last position. Invalid ''
     @ key @ '': '' @ (case path of None \<Rightarrow> ''undefined'' | Some p \<Rightarrow> p) @ '' mapping''"

text \<open>
  The callback of \<open>.map\<close>, applied to one entry \<open>[key, [path]]\<close> of \<open>paths\<close>; the
  destructuring takes the first candidate only.
\<close>

definition compileEntry :: "URL \<Rightarrow> string \<times> string list \<Rightarrow> error + Alias" where
  "compileEntry url entry =
    (let key = fst entry;
         path = (case snd entry of [] \<Rightarrow> None | p # _ \<Rightarrow> Some p);
         filter_a = split_slashes key;
         isWildcard_a = (at_last filter_a = Some ''*'')
     in
     if length (filter (\<lambda>f. f = ''*'') filter_a) \<noteq> (if isWildcard_a then 1 else 0)
        \<and> key \<noteq> ''''
     then Inl (Error (fatal_wildcard key path))
     else Inr \<lparr>alias_filter = (if isWildcard_a then slice_0_m1 filter_a else filter_a),
               isWildcard = isWildcard_a,
               alias_path = path,
               alias_url = url\<rparr>)"

text \<open>\<open>entries.map(f)\<close> where \<open>f\<close> can throw: the first throw ends the map.\<close>

fun map_throwing :: "('a \<Rightarrow> error + 'b) \<Rightarrow> 'a list \<Rightarrow> error + 'b list" where
  "map_throwing f [] = Inr []"
| "map_throwing f (x # xs) =
     (case f x of
        Inl err \<Rightarrow> Inl err
      | Inr y \<Rightarrow> (case map_throwing f xs of Inl err \<Rightarrow> Inl err | Inr ys \<Rightarrow> Inr (y # ys)))"

text \<open>
  \<open>extractAliases ()\<close>: \<open>readConfigFile\<close> with its default arguments, \<open>url\<close> defaulting
  to \<open>CWD_URL\<close>, then the map over \<open>Object.entries(paths)\<close>.
\<close>

definition extractAliases :: "env \<Rightarrow> (console list \<times> (error + Alias list)) option" where
  "extractAliases E =
     Option.bind (readConfigFile E (CWD_PATH E) ''tsconfig.json'' None)
       (\<lambda>r. case snd r of
          Inl err \<Rightarrow> Some (fst r, Inl err)
        | Inr cfg \<Rightarrow>
           (let paths = pc_paths cfg;
                url = (case pc_url cfg of None \<Rightarrow> CWD_URL E | Some u \<Rightarrow> u)
            in Some (fst r, map_throwing (compileEntry url) paths)))"

section \<open>The parts of a resolution step, named\<close>

text \<open>\<open>compilerOptions?.paths || {}\<close>: the paths a configuration declares itself.\<close>

definition declared_paths :: "JsonConfig \<Rightarrow> paths_obj" where
  "declared_paths cfg =
     (case cfg_compilerOptions cfg of
        None \<Rightarrow> []
      | Some co \<Rightarrow> (case co_paths co of None \<Rightarrow> [] | Some p \<Rightarrow> p))"

text \<open>\<open>compilerOptions?.baseUrl\<close>: the baseUrl a configuration declares, if any.\<close>

definition declared_baseUrl :: "JsonConfig \<Rightarrow> string option" where
  "declared_baseUrl cfg =
     (case cfg_compilerOptions cfg of None \<Rightarrow> None | Some co \<Rightarrow> co_baseUrl co)"

text \<open>A declared baseUrl, resolved against the directory of the file that declares it.\<close>

definition resolve_baseUrl :: "env \<Rightarrow> string \<Rightarrow> string \<Rightarrow> URL" where
  "resolve_baseUrl E configFile baseUrl =
     pathToFileURL E (path_join E [path_dirname E configFile, baseUrl @ ''/''])"

text \<open>The \<open>url\<close> a file contributes by itself: that of a declared baseUrl that is not empty.\<close>

definition own_url :: "env \<Rightarrow> string \<Rightarrow> JsonConfig \<Rightarrow> URL option" where
  "own_url E configFile cfg =
     (case declared_baseUrl cfg of
        None \<Rightarrow> None
      | Some b \<Rightarrow> if b \<noteq> '''' then Some (resolve_baseUrl E configFile b) else None)"

text \<open>
  Where an \<open>extends\<close> reference leads: a reference starting with a dot is taken from the
  starting directory of the current resolution, any other from \<open>MOD_PATH\<close>; its segments
  but the last are directories, its last segment is the file name.
\<close>

definition parent_dir :: "env \<Rightarrow> string \<Rightarrow> string \<Rightarrow> string" where
  "parent_dir E currentPath ref =
     path_join E ((if startsWith ref ''.'' then currentPath else MOD_PATH E)
                  # butlast (split_slashes ref))"

definition parent_file :: "string \<Rightarrow> string" where
  "parent_file ref = last (split_slashes ref)"

text \<open>
  What a file does with the outcome of its parent's resolution: an error is logged under
  this file's name and thrown on; a result is merged, own entries over the parent's and
  the own url before the parent's.
\<close>

definition merge_parent ::
  "env \<Rightarrow> string \<Rightarrow> JsonConfig \<Rightarrow> console list \<times> (error + PartialConfig)
   \<Rightarrow> (console list \<times> (error + PartialConfig)) option" where
  "merge_parent E configFile cfg r =
     (case snd r of
        Inl err \<Rightarrow> Some (fst r @ [console_error (fatal_parsing configFile err)], Inl err)
      | Inr extConfig \<Rightarrow>
          Some (fst r,
                Inr \<lparr>pc_paths = spread (spread [] (pc_paths extConfig)) (declared_paths cfg),
                     pc_url = (case own_url E configFile cfg of
                                 Some u \<Rightarrow> Some u
                               | None \<Rightarrow> pc_url extConfig)\<rparr>))"

section \<open>Extends chains\<close>

text \<open>
  \<open>extends_chain E dir file chain\<close>: starting at \<open>dir/file\<close>, every file of the chain
  exists and parses, and the chain ends at a file without a (non-empty) \<open>extends\<close> or
  at a reference to a file that does not exist. \<open>chain\<close> lists the files with their
  contents, the starting file first.
\<close>

inductive extends_chain :: "env \<Rightarrow> string \<Rightarrow> string \<Rightarrow> (string \<times> JsonConfig) list \<Rightarrow> bool"
  for E :: env where
  chain_missing:
    "\<not> existsSync E (path_join E [dir, file]) \<Longrightarrow> extends_chain E dir file []"
| chain_root:
    "f = path_join E [dir, file] \<Longrightarrow> existsSync E f \<Longrightarrow> parse_file E f = Inr cfg \<Longrightarrow>
     cfg_extends cfg = None \<or> cfg_extends cfg = Some '''' \<Longrightarrow>
     extends_chain E dir file [(f, cfg)]"
| chain_hop:
    "f = path_join E [dir, file] \<Longrightarrow> existsSync E f \<Longrightarrow> parse_file E f = Inr cfg \<Longrightarrow>
     cfg_extends cfg = Some ref \<Longrightarrow> ref \<noteq> '''' \<Longrightarrow>
     extends_chain E (parent_dir E dir ref) (parent_file ref) rest \<Longrightarrow>
     extends_chain E dir file ((f, cfg) # rest)"

text \<open>
  \<open>extends_path E dir file fs dir' file'\<close>: following \<open>extends\<close> from \<open>dir/file\<close>
  through the files \<open>fs\<close> (each exists and parses) leads to \<open>dir'/file'\<close>.
\<close>

inductive extends_path :: "env \<Rightarrow> string \<Rightarrow> string \<Rightarrow> string list \<Rightarrow> string \<Rightarrow> string \<Rightarrow> bool"
  for E :: env where
  path_here: "extends_path E dir file [] dir file"
| path_hop:
    "f = path_join E [dir, file] \<Longrightarrow> existsSync E f \<Longrightarrow> parse_file E f = Inr cfg \<Longrightarrow>
     cfg_extends cfg = Some ref \<Longrightarrow> ref \<noteq> '''' \<Longrightarrow>
     extends_path E (parent_dir E dir ref) (parent_file ref) fs dir' file' \<Longrightarrow>
     extends_path E dir file (f # fs) dir' file'"

text \<open>
  \<open>chain_ends E dir file\<close>: following \<open>extends\<close> from \<open>dir/file\<close> comes, after
  finitely many files, to a file that does not exist, to one that cannot be read or
  parsed, or to one without a (non-empty) \<open>extends\<close>.
\<close>

inductive chain_ends :: "env \<Rightarrow> string \<Rightarrow> string \<Rightarrow> bool"
  for E :: env where
  ends_missing:
    "\<not> existsSync E (path_join E [dir, file]) \<Longrightarrow> chain_ends E dir file"
| ends_throws:
    "f = path_join E [dir, file] \<Longrightarrow> existsSync E f \<Longrightarrow> parse_file E f = Inl err \<Longrightarrow>
     chain_ends E dir file"
| ends_root:
    "f = path_join E [dir, file] \<Longrightarrow> existsSync E f \<Longrightarrow> parse_file E f = Inr cfg \<Longrightarrow>
     cfg_extends cfg = None \<or> cfg_extends cfg = Some '''' \<Longrightarrow>
     chain_ends E dir file"
| ends_hop:
    "f = path_join E [dir, file] \<Longrightarrow> existsSync E f \<Longrightarrow> parse_file E f = Inr cfg \<Longrightarrow>
     cfg_extends cfg = Some ref \<Longrightarrow> ref \<noteq> '''' \<Longrightarrow>
     chain_ends E (parent_dir E dir ref) (parent_file ref) \<Longrightarrow>
     chain_ends E dir file"

text \<open>The merged entry for a key along a chain: that of the first file declaring the key.\<close>

fun chain_lookup :: "(string \<times> JsonConfig) list \<Rightarrow> string \<Rightarrow> string list option" where
  "chain_lookup [] k = None"
| "chain_lookup ((f, cfg) # rest) k =
     (case obj_get (declared_paths cfg) k of
        Some v \<Rightarrow> Some v
      | None \<Rightarrow> chain_lookup rest k)"

text \<open>
  The baseUrl of the nearest file of a chain that declares one, resolved against that
  file; and the same for the nearest file that declares one that is not empty.
\<close>

fun nearest_declared_baseUrl :: "env \<Rightarrow> (string \<times> JsonConfig) list \<Rightarrow> URL option" where
  "nearest_declared_baseUrl E [] = None"
| "nearest_declared_baseUrl E ((f, cfg) # rest) =
     (case declared_baseUrl cfg of
        Some b \<Rightarrow> Some (resolve_baseUrl E f b)
      | None \<Rightarrow> nearest_declared_baseUrl E rest)"

fun nearest_nonempty_baseUrl :: "env \<Rightarrow> (string \<times> JsonConfig) list \<Rightarrow> URL option" where
  "nearest_nonempty_baseUrl E [] = None"
| "nearest_nonempty_baseUrl E ((f, cfg) # rest) =
     (case own_url E f cfg of
        Some u \<Rightarrow> Some u
      | None \<Rightarrow> nearest_nonempty_baseUrl E rest)"

section \<open>Validity of a key, in the words of the specification\<close>

text \<open>
  A key is invalid when its segments hold more than one \<open>*\<close>, or a \<open>*\<close> anywhere
  but in the last place.
\<close>

definition spec_invalid_key :: "string list \<Rightarrow> bool" where
  "spec_invalid_key segs =
     (1 < length (filter (\<lambda>s. s = ''*'') segs) \<or> ''*'' \<in> set (butlast segs))"

text \<open>
  The rule of an entry: the filter is the segment list of the key, without the trailing
  \<open>*\<close> when the key is a wildcard key; the key is a wildcard key when its last segment
  is \<open>*\<close>; the target is the first candidate; the base is shared.
\<close>

definition spec_rule :: "URL \<Rightarrow> string \<times> string list \<Rightarrow> Alias" where
  "spec_rule url entry =
     \<lparr>alias_filter = (if last (split_slashes (fst entry)) = ''*''
                       then butlast (split_slashes (fst entry))
                       else split_slashes (fst entry)),
      isWildcard = (last (split_slashes (fst entry)) = ''*''),
      alias_path = (case snd entry of [] \<Rightarrow> None | p # _ \<Rightarrow> Some p),
      alias_url = url\<rparr>"

section \<open>Sample environments\<close>

text \<open>
  Concrete collaborators to run the model on: \<open>path.join\<close> and \<open>path.dirname\<close> as Node
  has them on POSIX (\<open>dirname\<close> for a path without a trailing slash), a file system given
  by its files and directories, and a parser given by the value it returns on each text
  (any other text is a syntax error).
\<close>

definition is_fwd_slash :: "char \<Rightarrow> bool" where
  "is_fwd_slash c = (c = CHR ''/'')"

fun join_with :: "string \<Rightarrow> string list \<Rightarrow> string" where
  "join_with sep [] = []"
| "join_with sep [x] = x"
| "join_with sep (x # y # ys) = x @ sep @ join_with sep (y # ys)"

fun normalize_segs :: "bool \<Rightarrow> string list \<Rightarrow> string list \<Rightarrow> string list" where
  "normalize_segs allowAbove acc [] = rev acc"
| "normalize_segs allowAbove acc (s # ss) =
     (if s = [] \<or> s = ''.'' then normalize_segs allowAbove acc ss
      else if s = ''..'' then
        (case acc of
           [] \<Rightarrow> normalize_segs allowAbove (if allowAbove then [''..''] else []) ss
         | a # acc' \<Rightarrow>
             if a = ''..'' then normalize_segs allowAbove (''..'' # acc) ss
             else normalize_segs allowAbove acc' ss)
      else normalize_segs allowAbove (s # acc) ss)"

definition posix_normalize :: "string \<Rightarrow> string" where
  "posix_normalize p =
     (if p = [] then ''.''
      else
        (let isAbsolute = (hd p = CHR ''/'');
             trailingSeparator = (last p = CHR ''/'');
             body = join_with ''/'' (normalize_segs (\<not> isAbsolute) [] (split_on is_fwd_slash p))
         in if body = [] then (if isAbsolute then ''/'' else if trailingSeparator then ''./'' else ''.'')
            else (if isAbsolute then ''/'' else '''') @ body @ (if trailingSeparator then ''/'' else '''')))"

definition posix_join :: "string list \<Rightarrow> string" where
  "posix_join parts = posix_normalize (join_with ''/'' (filter (\<lambda>p. p \<noteq> []) parts))"

definition posix_dirname :: "string \<Rightarrow> string" where
  "posix_dirname p =
     (let dir = join_with ''/'' (butlast (split_on is_fwd_slash p))
      in if dir \<noteq> [] then dir
         else if p \<noteq> [] \<and> hd p = CHR ''/'' then ''/'' else ''.'')"

definition sample_env :: "(string \<times> string) list \<Rightarrow> string list \<Rightarrow> (string \<times> JsonConfig) list \<Rightarrow> env" where
  "sample_env files dirs parses =
     \<lparr>existsSync = (\<lambda>p. p \<in> set dirs \<or> map_of files p \<noteq> None),
      readFileSync = (\<lambda>p. case map_of files p of
                              Some text \<Rightarrow> Inr text
                            | None \<Rightarrow> Inl (SystemError
                                (if p \<in> set dirs
                                 then ''EISDIR: illegal operation on a directory, read''
                                 else ''ENOENT: no such file or directory''))),
      JSON5_parse = (\<lambda>text. case map_of parses text of
                                Some cfg \<Rightarrow> Inr cfg
                              | None \<Rightarrow> Inl (SyntaxError ''JSON5: invalid end of input'')),
      path_join = posix_join,
      path_dirname = posix_dirname,
      pathToFileURL = (\<lambda>p. FileURL (''file://'' @ p)),
      CWD_PATH = ''/proj'',
      CWD_URL = FileURL ''file:///proj/'',
      MOD_PATH = ''/proj/node_modules''\<rparr>"

text \<open>A project whose tsconfig.json extends a base configuration in a subdirectory.\<close>

definition cfg_child :: JsonConfig where
  "cfg_child =
     \<lparr>cfg_compilerOptions =
        Some \<lparr>co_baseUrl = None,
              co_paths = Some [(''@app/*'', [''./src/*'', ''./lib/*'']), (''@x'', [''./a''])]\<rparr>,
      cfg_extends = Some ''./base/tsconfig.base.json''\<rparr>"

definition cfg_base :: JsonConfig where
  "cfg_base =
     \<lparr>cfg_compilerOptions =
        Some \<lparr>co_baseUrl = Some ''./src'',
              co_paths = Some [(''@x'', [''./b'']), (''@y'', [''./y''])]\<rparr>,
      cfg_extends = None\<rparr>"

definition sample_dirs :: "string list" where
  "sample_dirs = [''/'', ''/proj'', ''/proj/base'', ''/proj/node_modules'']"

definition E_two :: env where
  "E_two = sample_env
     [(''/proj/tsconfig.json'', ''child''), (''/proj/base/tsconfig.base.json'', ''base'')]
     sample_dirs
     [(''child'', cfg_child), (''base'', cfg_base)]"

text \<open>The same project with a base file that does not parse.\<close>

definition E_broken :: env where
  "E_broken = sample_env
     [(''/proj/tsconfig.json'', ''child''), (''/proj/base/tsconfig.base.json'', ''{ compilerOptions: {'')]
     sample_dirs
     [(''child'', cfg_child)]"

text \<open>The same project with a child that declares the empty string as its baseUrl.\<close>

definition cfg_child_empty_baseUrl :: JsonConfig where
  "cfg_child_empty_baseUrl =
     \<lparr>cfg_compilerOptions = Some \<lparr>co_baseUrl = Some '''', co_paths = None\<rparr>,
      cfg_extends = Some ''./base/tsconfig.base.json''\<rparr>"

definition E_empty_baseUrl :: env where
  "E_empty_baseUrl = sample_env
     [(''/proj/tsconfig.json'', ''child''), (''/proj/base/tsconfig.base.json'', ''base'')]
     sample_dirs
     [(''child'', cfg_child_empty_baseUrl), (''base'', cfg_base)]"

text \<open>A tsconfig.json whose \<open>extends\<close> is the empty string.\<close>

definition cfg_empty_extends :: JsonConfig where
  "cfg_empty_extends = \<lparr>cfg_compilerOptions = None, cfg_extends = Some ''''\<rparr>"

definition E_empty_extends :: env where
  "E_empty_extends = sample_env
     [(''/proj/tsconfig.json'', ''child'')]
     sample_dirs
     [(''child'', cfg_empty_extends)]"

text \<open>A tsconfig.json that extends itself.\<close>

definition cfg_self :: JsonConfig where
  "cfg_self = \<lparr>cfg_compilerOptions = None, cfg_extends = Some ''./tsconfig.json''\<rparr>"


text \<open>A tsconfig.json with a key that holds two wildcards, between two keys that are valid.\<close>

definition cfg_bad_key :: JsonConfig where
  "cfg_bad_key =
     \<lparr>cfg_compilerOptions =
        Some \<lparr>co_baseUrl = None,
              co_paths = Some [(''@ok/*'', [''./ok/*'']), (''@a/*/*'', [''./x'']),
                               (''@later'', [''./later''])]\<rparr>,
      cfg_extends = None\<rparr>"

definition E_bad_key :: env where
  "E_bad_key = sample_env
     [(''/proj/tsconfig.json'', ''bad key'')]
     sample_dirs
     [(''bad key'', cfg_bad_key)]"

text \<open>
  A tsconfig.json that extends \<open>@tsconfig/strictest/tsconfig.json\<close>, as the configuration
  shipped in \<open>packages/dev/config\<close> does, in a project where that package is not installed.
\<close>

definition cfg_strictest_child :: JsonConfig where
  "cfg_strictest_child =
     \<lparr>cfg_compilerOptions = Some \<lparr>co_baseUrl = None, co_paths = Some [(''@x'', [''./a''])]\<rparr>,
      cfg_extends = Some ''@tsconfig/strictest/tsconfig.json''\<rparr>"

definition E_missing_parent :: env where
  "E_missing_parent = sample_env
     [(''/proj/tsconfig.json'', ''child'')]
     sample_dirs
     [(''child'', cfg_strictest_child)]"

section \<open>Facts about the primitives\<close>

lemma split_on_nonempty: "split_on sep s \<noteq> []"
  by (induction s) (simp_all split: list.splits)

lemma split_slashes_nonempty: "split_slashes s \<noteq> []"
  by (simp add: split_slashes_def split_on_nonempty)

lemma at_last_eq: "at_last xs = (if xs = [] then None else Some (last xs))"
  by (induction xs rule: at_last.induct) simp_all

lemma at_last_split: "at_last (split_slashes s) = Some (parent_file s)"
  by (simp add: at_last_eq split_slashes_nonempty parent_file_def)

lemma spread_Cons: "spread tgt ((k, v) # src) = spread (AList.update k v tgt) src"
  by (simp add: spread_def)

lemma spread_Nil: "spread tgt [] = tgt"
  by (simp add: spread_def)

lemma map_of_spread:
  "map_of (spread tgt src) k =
     (case map_of (rev src) k of Some v \<Rightarrow> Some v | None \<Rightarrow> map_of tgt k)"
proof (induction src arbitrary: tgt)
  case Nil
  then show ?case by (simp add: spread_Nil)
next
  case (Cons a src)
  obtain k' v' where a: "a = (k', v')" by (cases a)
  show ?case
    by (simp add: a spread_Cons Cons.IH update_conv' map_add_def split: option.splits)
qed

lemma map_of_rev_distinct:
  "distinct (map fst xs) \<Longrightarrow> map_of (rev xs) k = map_of xs k"
proof (induction xs)
  case Nil
  then show ?case by simp
next
  case (Cons a xs)
  obtain k' v' where a: "a = (k', v')" by (cases a)
  from Cons.prems have nin: "map_of xs k' = None" 
    by (simp add: a map_of_eq_None_iff)
  from Cons.prems have ih: "map_of (rev xs) k = map_of xs k"
    using Cons.IH by simp
  show ?case
    using nin ih by (simp add: a map_add_def split: option.splits)
qed

lemma distinct_spread:
  "distinct (map fst tgt) \<Longrightarrow> distinct (map fst (spread tgt src))"
proof (induction src arbitrary: tgt)
  case Nil
  then show ?case by (simp add: spread_Nil)
next
  case (Cons a src)
  obtain k' v' where a: "a = (k', v')" by (cases a)
  show ?case
    unfolding a spread_Cons using Cons.prems by (intro Cons.IH distinct_update)
qed

lemma obj_get_merge:
  assumes "distinct (map fst own)" and "distinct (map fst ext)"
  shows "obj_get (spread (spread [] ext) own) k =
           (case obj_get own k of Some v \<Rightarrow> Some v | None \<Rightarrow> obj_get ext k)"
  using assms
  by (simp add: obj_get_def map_of_spread map_of_rev_distinct split: option.splits)

lemma distinct_merge: "distinct (map fst (spread (spread [] ext) own))"
  by (intro distinct_spread) simp

section \<open>One call of readConfigFile\<close>

lemma readConfigFile_missing:
  assumes "\<not> existsSync E (path_join E [dir, tsconfig])"
  shows "readConfigFile E dir tsconfig fromFile =
         Some ([console_warn (warn_missing (path_join E [dir, tsconfig]) fromFile)],
               Inr \<lparr>pc_paths = [], pc_url = None\<rparr>)"
  using assms by (simp add: readConfigFile.simps[of E dir tsconfig fromFile])

lemma readConfigFile_throws:
  assumes "existsSync E (path_join E [dir, tsconfig])"
    and "parse_file E (path_join E [dir, tsconfig]) = Inl err"
  shows "readConfigFile E dir tsconfig fromFile =
         Some ([console_error (fatal_parsing (path_join E [dir, tsconfig]) err)], Inl err)"
  using assms by (simp add: readConfigFile.simps[of E dir tsconfig fromFile])

lemma readConfigFile_root:
  assumes "existsSync E (path_join E [dir, tsconfig])"
    and "parse_file E (path_join E [dir, tsconfig]) = Inr cfg"
    and "cfg_extends cfg = None \<or> cfg_extends cfg = Some ''''"
  shows "readConfigFile E dir tsconfig fromFile =
         Some ([], Inr \<lparr>pc_paths = declared_paths cfg,
                        pc_url = own_url E (path_join E [dir, tsconfig]) cfg\<rparr>)"
  using assms
  by (auto simp add: readConfigFile.simps[of E dir tsconfig fromFile] Let_def declared_paths_def
      own_url_def declared_baseUrl_def resolve_baseUrl_def split: option.splits)

lemma readConfigFile_hop:
  assumes "existsSync E (path_join E [dir, tsconfig])"
    and "parse_file E (path_join E [dir, tsconfig]) = Inr cfg"
    and "cfg_extends cfg = Some ref" and "ref \<noteq> ''''"
  shows "readConfigFile E dir tsconfig fromFile =
         Option.bind
           (readConfigFile E (parent_dir E dir ref) (parent_file ref)
              (Some (path_join E [dir, tsconfig])))
           (merge_parent E (path_join E [dir, tsconfig]) cfg)"
  using assms
  apply (subst readConfigFile.simps[of E dir tsconfig fromFile])
  apply (simp add: Let_def at_last_split slice_0_m1_def parent_dir_def[symmetric])
  apply (rule Option.bind_cong)
   apply (rule refl)
  apply (simp add: merge_parent_def declared_paths_def own_url_def declared_baseUrl_def
      resolve_baseUrl_def Let_def split: sum.splits option.splits)
  done

section \<open>Resolution along a chain\<close>

lemma chain_result:
  assumes "extends_chain E dir tsconfig chain"
  shows "\<exists>log r. readConfigFile E dir tsconfig ff = Some (log, Inr r)
           \<and> pc_url r = nearest_nonempty_baseUrl E chain
           \<and> (list_all (\<lambda>fc. distinct (map fst (declared_paths (snd fc)))) chain
                \<longrightarrow> distinct (map fst (pc_paths r))
                    \<and> (\<forall>k. obj_get (pc_paths r) k = chain_lookup chain k))"
  using assms
proof (induction arbitrary: ff rule: extends_chain.induct)
  case (chain_missing dir tsconfig)
  then show ?case
    by (simp add: readConfigFile_missing obj_get_def)
next
  case (chain_root f dir tsconfig cfg)
  then show ?case
    by (simp add: readConfigFile_root[of E dir tsconfig cfg] obj_get_def split: option.splits)
next
  case (chain_hop f dir tsconfig cfg ref rest)
  from chain_hop.IH[of "Some f"] obtain log r where
    rec: "readConfigFile E (parent_dir E dir ref) (parent_file ref) (Some f) = Some (log, Inr r)"
    and url: "pc_url r = nearest_nonempty_baseUrl E rest"
    and keys: "list_all (\<lambda>fc. distinct (map fst (declared_paths (snd fc)))) rest
                \<longrightarrow> distinct (map fst (pc_paths r))
                    \<and> (\<forall>k. obj_get (pc_paths r) k = chain_lookup rest k)"
    by blast
  let ?r = "\<lparr>pc_paths = spread (spread [] (pc_paths r)) (declared_paths cfg),
             pc_url = (case own_url E f cfg of Some u \<Rightarrow> Some u | None \<Rightarrow> pc_url r)\<rparr>"
  have step: "readConfigFile E dir tsconfig ff = Some (log, Inr ?r)"
    using chain_hop.hyps rec
    by (simp add: readConfigFile_hop[of E dir tsconfig cfg ref] merge_parent_def)
  have u: "pc_url ?r = nearest_nonempty_baseUrl E ((f, cfg) # rest)"
    by (simp add: url split: option.splits)
  have k: "list_all (\<lambda>fc. distinct (map fst (declared_paths (snd fc)))) ((f, cfg) # rest)
            \<longrightarrow> distinct (map fst (pc_paths ?r))
                \<and> (\<forall>k. obj_get (pc_paths ?r) k = chain_lookup ((f, cfg) # rest) k)"
    using keys by (simp add: distinct_merge obj_get_merge split: option.splits)
  show ?case using step u k by blast
qed

lemma path_throws:
  assumes "extends_path E dir tsconfig fs dir' tsconfig'"
    and "existsSync E (path_join E [dir', tsconfig'])"
    and "parse_file E (path_join E [dir', tsconfig']) = Inl err"
  shows "readConfigFile E dir tsconfig ff =
           Some (console_error (fatal_parsing (path_join E [dir', tsconfig']) err)
                   # map (\<lambda>f. console_error (fatal_parsing f err)) (rev fs),
                 Inl err)"
  using assms
proof (induction arbitrary: ff rule: extends_path.induct)
  case (path_here dir tsconfig)
  then show ?case by (simp add: readConfigFile_throws)
next
  case (path_hop f dir tsconfig cfg ref fs dir' tsconfig')
  have rec: "readConfigFile E (parent_dir E dir ref) (parent_file ref) (Some f) =
           Some (console_error (fatal_parsing (path_join E [dir', tsconfig']) err)
                   # map (\<lambda>f. console_error (fatal_parsing f err)) (rev fs),
                 Inl err)"
    using path_hop.IH path_hop.prems by blast
  show ?case
    using path_hop.hyps rec
    by (simp add: readConfigFile_hop[of E dir tsconfig cfg ref] merge_parent_def)
qed

lemma chain_ends_returns:
  assumes "chain_ends E dir tsconfig"
  shows "\<exists>out. readConfigFile E dir tsconfig ff = Some out"
  using assms
proof (induction arbitrary: ff rule: chain_ends.induct)
  case (ends_missing dir tsconfig)
  then show ?case by (simp add: readConfigFile_missing)
next
  case (ends_throws f dir tsconfig err)
  then show ?case by (simp add: readConfigFile_throws)
next
  case (ends_root f dir tsconfig cfg)
  then show ?case by (simp add: readConfigFile_root[of E dir tsconfig cfg])
next
  case (ends_hop f dir tsconfig cfg ref)
  from ends_hop.IH[of "Some f"] obtain out where
    rec: "readConfigFile E (parent_dir E dir ref) (parent_file ref) (Some f) = Some out"
    by blast
  have "\<exists>out'. merge_parent E f cfg out = Some out'"
    by (simp add: merge_parent_def split: sum.splits)
  then show ?case
    using ends_hop.hyps rec
    by (simp add: readConfigFile_hop[of E dir tsconfig cfg ref])
qed


section \<open>Resolution on a stack of limited depth\<close>










section \<open>The sample environments, evaluated\<close>

lemma sample_env_sel:
  "existsSync (sample_env files dirs parses) p = (p \<in> set dirs \<or> map_of files p \<noteq> None)"
  "path_join (sample_env files dirs parses) = posix_join"
  "path_dirname (sample_env files dirs parses) = posix_dirname"
  "pathToFileURL (sample_env files dirs parses) p = FileURL (''file://'' @ p)"
  "CWD_PATH (sample_env files dirs parses) = ''/proj''"
  "CWD_URL (sample_env files dirs parses) = FileURL ''file:///proj/''"
  "MOD_PATH (sample_env files dirs parses) = ''/proj/node_modules''"
  by (simp_all add: sample_env_def)

lemma sample_env_parse_file:
  "parse_file (sample_env files dirs parses) p =
     (case map_of files p of
        Some text \<Rightarrow> (case map_of parses text of
                       Some cfg \<Rightarrow> Inr cfg
                     | None \<Rightarrow> Inl (SyntaxError ''JSON5: invalid end of input''))
      | None \<Rightarrow> Inl (SystemError
                (if p \<in> set dirs
                 then ''EISDIR: illegal operation on a directory, read''
                 else ''ENOENT: no such file or directory'')))"
  by (simp add: parse_file_def sample_env_def split: option.splits)

lemma posix_join_samples:
  "posix_join [''/proj'', ''tsconfig.json''] = ''/proj/tsconfig.json''"
  "posix_join [''/proj'', ''.'', ''base''] = ''/proj/base''"
  "posix_join [''/proj/base'', ''tsconfig.base.json''] = ''/proj/base/tsconfig.base.json''"
  "posix_join [''/proj'', ''.''] = ''/proj''"
  "posix_join [''/proj/node_modules''] = ''/proj/node_modules''"
  "posix_join [''/proj/node_modules'', ''''] = ''/proj/node_modules''"
  "posix_join [''/proj/base'', ''./src/''] = ''/proj/base/src/''"
  "posix_join [''/proj'', ''/''] = ''/proj/''"
  "posix_join [''/elsewhere'', ''tsconfig.json''] = ''/elsewhere/tsconfig.json''"
  by code_simp+

lemma posix_dirname_samples:
  "posix_dirname ''/proj/tsconfig.json'' = ''/proj''"
  "posix_dirname ''/proj/base/tsconfig.base.json'' = ''/proj/base''"
  by code_simp+

lemma split_samples:
  "split_slashes ''./base/tsconfig.base.json'' = [''.'', ''base'', ''tsconfig.base.json'']"
  "split_slashes ''./tsconfig.json'' = [''.'', ''tsconfig.json'']"
  "split_slashes '''' = ['''']"
  "split_slashes ''@app/*'' = [''@app'', ''*'']"
  "split_slashes ''@x'' = [''@x'']"
  "split_slashes ''@y'' = [''@y'']"
  "split_slashes ''@a/*/*'' = [''@a'', ''*'', ''*'']"
  "split_slashes ''@app/*/extra'' = [''@app'', ''*'', ''extra'']"
  by code_simp+

lemmas sample_simps =
  sample_env_sel sample_env_parse_file posix_join_samples posix_dirname_samples
  split_samples sample_dirs_def

lemma parent_samples:
  "parent_dir (sample_env fs ds ps) ''/proj'' ''./base/tsconfig.base.json'' = ''/proj/base''"
  "parent_file ''./base/tsconfig.base.json'' = ''tsconfig.base.json''"
  "parent_dir (sample_env fs ds ps) ''/proj'' ''./tsconfig.json'' = ''/proj''"
  "parent_file ''./tsconfig.json'' = ''tsconfig.json''"
  "parent_dir (sample_env fs ds ps) ''/proj'' '''' = ''/proj/node_modules''"
  "parent_file '''' = ''''"
  by (simp_all add: parent_dir_def parent_file_def startsWith_def sample_simps)

lemma declared_samples:
  "declared_paths cfg_child = [(''@app/*'', [''./src/*'', ''./lib/*'']), (''@x'', [''./a''])]"
  "declared_paths cfg_base = [(''@x'', [''./b'']), (''@y'', [''./y''])]"
  "declared_paths cfg_child_empty_baseUrl = []"
  "declared_paths cfg_empty_extends = []"
  "declared_baseUrl cfg_child = None"
  "declared_baseUrl cfg_base = Some ''./src''"
  "declared_baseUrl cfg_child_empty_baseUrl = Some ''''"
  "declared_baseUrl cfg_empty_extends = None"
  "cfg_extends cfg_child = Some ''./base/tsconfig.base.json''"
  "cfg_extends cfg_base = None"
  "cfg_extends cfg_child_empty_baseUrl = Some ''./base/tsconfig.base.json''"
  "cfg_extends cfg_empty_extends = Some ''''"
  "cfg_extends cfg_self = Some ''./tsconfig.json''"
  by (simp_all add: declared_paths_def declared_baseUrl_def cfg_child_def cfg_base_def
      cfg_child_empty_baseUrl_def cfg_empty_extends_def cfg_self_def)

lemma own_url_samples:
  "own_url (sample_env fs ds ps) f cfg_child = None"
  "own_url (sample_env fs ds ps) ''/proj/base/tsconfig.base.json'' cfg_base
     = Some (FileURL ''file:///proj/base/src/'')"
  "own_url (sample_env fs ds ps) f cfg_child_empty_baseUrl = None"
  "own_url (sample_env fs ds ps) f cfg_empty_extends = None"
  by (simp_all add: own_url_def resolve_baseUrl_def declared_samples sample_simps)

lemma spread_samples:
  "spread (spread [] [(''@x'', [''./b'']), (''@y'', [''./y''])])
          [(''@app/*'', [''./src/*'', ''./lib/*'']), (''@x'', [''./a''])]
     = [(''@x'', [''./a'']), (''@y'', [''./y'']), (''@app/*'', [''./src/*'', ''./lib/*''])]"
  "spread (spread [] [(''@x'', [''./b'']), (''@y'', [''./y''])]) []
     = [(''@x'', [''./b'']), (''@y'', [''./y''])]"
  by (simp_all add: spread_def)

lemma base_resolves:
  assumes "map_of fs ''/proj/base/tsconfig.base.json'' = Some ''base''"
    and "map_of ps ''base'' = Some cfg_base"
  shows "readConfigFile (sample_env fs ds ps) ''/proj/base'' ''tsconfig.base.json'' ff =
     Some ([], Inr \<lparr>pc_paths = [(''@x'', [''./b'']), (''@y'', [''./y''])],
                    pc_url = Some (FileURL ''file:///proj/base/src/'')\<rparr>)"
  using assms
  by (simp add: readConfigFile_root[of _ _ _ cfg_base] sample_simps declared_samples
      own_url_samples)

lemma E_two_resolves:
  "readConfigFile E_two ''/proj'' ''tsconfig.json'' ff =
     Some ([], Inr \<lparr>pc_paths = [(''@x'', [''./a'']), (''@y'', [''./y'']),
                               (''@app/*'', [''./src/*'', ''./lib/*''])],
                    pc_url = Some (FileURL ''file:///proj/base/src/'')\<rparr>)"
  unfolding E_two_def
  by (simp add: readConfigFile_hop[of _ _ _ cfg_child "''./base/tsconfig.base.json''"]
      base_resolves merge_parent_def sample_simps declared_samples own_url_samples
      parent_samples spread_samples)

lemma E_two_chain:
  "extends_chain E_two ''/proj'' ''tsconfig.json''
     [(''/proj/tsconfig.json'', cfg_child), (''/proj/base/tsconfig.base.json'', cfg_base)]"
  unfolding E_two_def
  apply (rule chain_hop[where ref = "''./base/tsconfig.base.json''"])
       apply (simp_all add: sample_simps declared_samples parent_samples)
  apply (rule chain_root)
     apply (simp_all add: sample_simps declared_samples)
  done

lemma E_empty_baseUrl_resolves:
  "readConfigFile E_empty_baseUrl ''/proj'' ''tsconfig.json'' ff =
     Some ([], Inr \<lparr>pc_paths = [(''@x'', [''./b'']), (''@y'', [''./y''])],
                    pc_url = Some (FileURL ''file:///proj/base/src/'')\<rparr>)"
  unfolding E_empty_baseUrl_def
  by (simp add: readConfigFile_hop[of _ _ _ cfg_child_empty_baseUrl "''./base/tsconfig.base.json''"]
      base_resolves merge_parent_def sample_simps declared_samples own_url_samples
      parent_samples spread_samples)

lemma E_empty_baseUrl_chain:
  "extends_chain E_empty_baseUrl ''/proj'' ''tsconfig.json''
     [(''/proj/tsconfig.json'', cfg_child_empty_baseUrl),
      (''/proj/base/tsconfig.base.json'', cfg_base)]"
  unfolding E_empty_baseUrl_def
  apply (rule chain_hop[where ref = "''./base/tsconfig.base.json''"])
       apply (simp_all add: sample_simps declared_samples parent_samples)
  apply (rule chain_root)
     apply (simp_all add: sample_simps declared_samples)
  done

lemma E_broken_path:
  "extends_path E_broken ''/proj'' ''tsconfig.json'' [''/proj/tsconfig.json'']
     ''/proj/base'' ''tsconfig.base.json''"
  unfolding E_broken_def
  apply (rule path_hop[where ref = "''./base/tsconfig.base.json''" and cfg = cfg_child])
       apply (simp_all add: sample_simps declared_samples parent_samples)
  apply (rule path_here)
  done

lemma E_empty_extends_resolves:
  "readConfigFile E_empty_extends ''/proj'' ''tsconfig.json'' ff =
     Some ([], Inr \<lparr>pc_paths = [], pc_url = None\<rparr>)"
  unfolding E_empty_extends_def
  by (simp add: readConfigFile_root[of _ _ _ cfg_empty_extends] sample_simps declared_samples
      own_url_samples)

lemma E_empty_extends_parent:
  "readConfigFile E_empty_extends ''/proj/node_modules'' '''' ff =
     Some ([console_error
              ''FATAL: Error parsing /proj/node_modules:: EISDIR: illegal operation on a directory, read''],
           Inl (SystemError ''EISDIR: illegal operation on a directory, read''))"
  unfolding E_empty_extends_def
  by (simp add: readConfigFile_throws[of _ _ _ "SystemError ''EISDIR: illegal operation on a directory, read''"]
      sample_simps fatal_parsing_def)



section \<open>compileEntry and extractAliases\<close>

lemma count_star_snoc:
  "xs \<noteq> [] \<Longrightarrow>
   length (filter (\<lambda>f. f = s) xs) =
   length (filter (\<lambda>f. f = s) (butlast xs)) + (if last xs = s then 1 else 0)"
  by (cases xs rule: rev_cases) simp_all

lemma count_zero_iff: "length (filter (\<lambda>f. f = s) xs) = 0 \<longleftrightarrow> s \<notin> set xs"
  by (simp add: filter_empty_conv) blast

lemma wildcard_check_iff:
  assumes "segs \<noteq> []"
  shows "length (filter (\<lambda>f. f = ''*'') segs) \<noteq> (if at_last segs = Some ''*'' then 1 else 0)
         \<longleftrightarrow> spec_invalid_key segs"
proof -
  have c: "length (filter (\<lambda>f. f = ''*'') segs) =
        length (filter (\<lambda>f. f = ''*'') (butlast segs)) + (if last segs = ''*'' then 1 else 0)"
    using assms by (rule count_star_snoc)
  have z: "length (filter (\<lambda>f. f = ''*'') (butlast segs)) = 0 \<longleftrightarrow> ''*'' \<notin> set (butlast segs)"
    by (rule count_zero_iff)
  show ?thesis
  proof (cases "''*'' \<in> set (butlast segs)")
    case True
    then show ?thesis unfolding spec_invalid_key_def using assms c z by (simp add: at_last_eq)
  next
    case False
    then show ?thesis unfolding spec_invalid_key_def using assms c z by (simp add: at_last_eq)
  qed
qed

lemma not_invalid_empty: "\<not> spec_invalid_key (split_slashes '''')"
  by (simp add: split_samples spec_invalid_key_def)

text \<open>The callback, with its test replaced by the specification's.\<close>

lemma compileEntry_eq:
  "compileEntry url (key, cands) =
     (if spec_invalid_key (split_slashes key)
      then Inl (Error (fatal_wildcard key (case cands of [] \<Rightarrow> None | p # _ \<Rightarrow> Some p)))
      else Inr \<lparr>alias_filter = (if last (split_slashes key) = ''*''
                                then butlast (split_slashes key) else split_slashes key),
                isWildcard = (last (split_slashes key) = ''*''),
                alias_path = (case cands of [] \<Rightarrow> None | p # _ \<Rightarrow> Some p),
                alias_url = url\<rparr>)"
proof (cases "key = ''''")
  case True
  then show ?thesis
    using not_invalid_empty
    by (simp add: compileEntry_def Let_def at_last_eq split_slashes_nonempty slice_0_m1_def)
next
  case False
  then show ?thesis
    using wildcard_check_iff[OF split_slashes_nonempty, of key]
    by (simp add: compileEntry_def Let_def at_last_eq split_slashes_nonempty slice_0_m1_def)
qed

lemma valid_filter_no_star:
  assumes "\<not> spec_invalid_key segs" and "segs \<noteq> []"
  shows "''*'' \<notin> set (if last segs = ''*'' then butlast segs else segs)"
proof (cases "last segs = ''*''")
  case True
  then show ?thesis using assms by (simp add: spec_invalid_key_def)
next
  case False
  have "set segs = set (butlast segs) \<union> {last segs}"
    using assms(2) by (cases segs rule: rev_cases) auto
  then show ?thesis using False assms by (auto simp add: spec_invalid_key_def)
qed

lemma compileEntry_no_star:
  assumes "compileEntry url entry = Inr a"
  shows "''*'' \<notin> set (alias_filter a)"
proof -
  obtain key cands where e: "entry = (key, cands)" by (cases entry)
  from assms have ok: "\<not> spec_invalid_key (split_slashes key)"
    and a: "alias_filter a = (if last (split_slashes key) = ''*''
                             then butlast (split_slashes key) else split_slashes key)"
    unfolding e compileEntry_eq by (auto split: if_splits)
  show ?thesis
    unfolding a using ok split_slashes_nonempty by (rule valid_filter_no_star)
qed

lemma map_throwing_Inr:
  assumes "map_throwing f xs = Inr ys" and "y \<in> set ys"
  shows "\<exists>x \<in> set xs. f x = Inr y"
  using assms
proof (induction xs arbitrary: ys)
  case Nil
  then show ?case by simp
next
  case (Cons x xs)
  then show ?case by (auto split: sum.splits)
qed

lemma extractAliases_Inr:
  assumes "extractAliases E = Some (log, Inr rules)"
  shows "\<exists>cfg. readConfigFile E (CWD_PATH E) ''tsconfig.json'' None = Some (log, Inr cfg)
           \<and> map_throwing (compileEntry (case pc_url cfg of None \<Rightarrow> CWD_URL E | Some u \<Rightarrow> u))
                 (pc_paths cfg) = Inr rules"
proof (cases "readConfigFile E (CWD_PATH E) ''tsconfig.json'' None")
  case None
  with assms show ?thesis by (simp add: extractAliases_def)
next
  case (Some r)
  obtain lg res where r: "r = (lg, res)" by (cases r)
  show ?thesis
  proof (cases res)
    case (Inl err)
    with assms Some r show ?thesis by (simp add: extractAliases_def)
  next
    case (Inr cfg)
    with assms Some r show ?thesis by (simp add: extractAliases_def Let_def)
  qed
qed

lemma extractAliases_throws:
  assumes "readConfigFile E (CWD_PATH E) ''tsconfig.json'' None = Some (log, Inl err)"
  shows "extractAliases E = Some (log, Inl err)"
  using assms by (simp add: extractAliases_def)

lemma E_two_aliases:
  "extractAliases E_two =
     Some ([], Inr [\<lparr>alias_filter = [''@x''], isWildcard = False, alias_path = Some ''./a'',
                      alias_url = FileURL ''file:///proj/base/src/''\<rparr>,
                    \<lparr>alias_filter = [''@y''], isWildcard = False, alias_path = Some ''./y'',
                      alias_url = FileURL ''file:///proj/base/src/''\<rparr>,
                    \<lparr>alias_filter = [''@app''], isWildcard = True, alias_path = Some ''./src/*'',
                      alias_url = FileURL ''file:///proj/base/src/''\<rparr>])"
proof -
  have cwd: "CWD_PATH E_two = ''/proj''" by (simp add: E_two_def sample_simps)
  show ?thesis
    by (simp add: extractAliases_def cwd E_two_resolves compileEntry_eq split_samples
        spec_invalid_key_def)
qed

lemma compileEntry_spec:
  "compileEntry url entry =
     (if spec_invalid_key (split_slashes (fst entry))
      then Inl (Error (fatal_wildcard (fst entry)
                         (case snd entry of [] \<Rightarrow> None | p # _ \<Rightarrow> Some p)))
      else Inr (spec_rule url entry))"
  by (cases entry) (simp add: compileEntry_eq spec_rule_def)

lemma map_throwing_find:
  "map_throwing (compileEntry url) entries =
     (case find (\<lambda>entry. spec_invalid_key (split_slashes (fst entry))) entries of
        Some entry \<Rightarrow> Inl (Error (fatal_wildcard (fst entry)
                                  (case snd entry of [] \<Rightarrow> None | p # _ \<Rightarrow> Some p)))
      | None \<Rightarrow> Inr (map (spec_rule url) entries))"
proof (induction entries)
  case Nil
  then show ?case by simp
next
  case (Cons e entries)
  show ?case
  proof (cases "spec_invalid_key (split_slashes (fst e))")
    case True
    then show ?thesis by (simp add: compileEntry_spec[of url e])
  next
    case False
    then show ?thesis
      by (simp add: compileEntry_spec[of url e] Cons.IH split: option.splits)
  qed
qed

lemma extractAliases_resolved:
  assumes "readConfigFile E (CWD_PATH E) ''tsconfig.json'' None = Some (log, Inr cfg)"
  shows "extractAliases E =
           Some (log, map_throwing
                        (compileEntry (case pc_url cfg of None \<Rightarrow> CWD_URL E | Some u \<Rightarrow> u))
                        (pc_paths cfg))"
  using assms by (simp add: extractAliases_def Let_def)

lemma bad_key_samples:
  "cfg_extends cfg_bad_key = None"
  "declared_paths cfg_bad_key =
     [(''@ok/*'', [''./ok/*'']), (''@a/*/*'', [''./x'']), (''@later'', [''./later''])]"
  "own_url E f cfg_bad_key = None"
  by (simp_all add: cfg_bad_key_def declared_paths_def own_url_def declared_baseUrl_def)

lemma E_bad_key_resolves:
  "readConfigFile E_bad_key ''/proj'' ''tsconfig.json'' ff =
     Some ([], Inr \<lparr>pc_paths = [(''@ok/*'', [''./ok/*'']), (''@a/*/*'', [''./x'']),
                               (''@later'', [''./later''])],
                    pc_url = None\<rparr>)"
  unfolding E_bad_key_def
  by (simp add: readConfigFile_root[of _ _ _ cfg_bad_key] sample_simps bad_key_samples)

lemma split_more_samples:
  "split_slashes ''@ok/*'' = [''@ok'', ''*'']"
  "split_slashes ''@later'' = [''@later'']"
  by code_simp+

lemma strictest_samples:
  "split_slashes ''@tsconfig/strictest/tsconfig.json'' = [''@tsconfig'', ''strictest'', ''tsconfig.json'']"
  "posix_join [''/proj/node_modules'', ''@tsconfig'', ''strictest'']
     = ''/proj/node_modules/@tsconfig/strictest''"
  "posix_join [''/proj/node_modules/@tsconfig/strictest'', ''tsconfig.json'']
     = ''/proj/node_modules/@tsconfig/strictest/tsconfig.json''"
  "startsWith ''@tsconfig/strictest/tsconfig.json'' ''.'' = False"
  by code_simp+

lemma strictest_child_samples:
  "cfg_extends cfg_strictest_child = Some ''@tsconfig/strictest/tsconfig.json''"
  "declared_paths cfg_strictest_child = [(''@x'', [''./a''])]"
  "own_url E f cfg_strictest_child = None"
  by (simp_all add: cfg_strictest_child_def declared_paths_def own_url_def declared_baseUrl_def)



section \<open>The claims\<close>

text \<open>
  Claim C1. For every key of the merged \<open>paths\<close>, compilation fails exactly when the
  key, split on forward and backward slashes, has more than one segment equal to \<open>*\<close>
  or has a \<open>*\<close> segment in a place other than the last. \<open>extractAliases\<close> then throws
  the wildcard error of the first such key, naming the key and its first candidate, and
  returns no rules: an invalid key is fatal, it is not skipped. When no key is invalid,
  \<open>extractAliases\<close> returns one rule for every entry, in order. The same holds of the
  callback on a single entry, whatever the candidates and the url.
\<close>

theorem wildcard_key_rejected_iff:
  assumes "readConfigFile E (CWD_PATH E) ''tsconfig.json'' None = Some (log, Inr cfg)"
  shows
   "extractAliases E =
      Some (log,
            case find (\<lambda>entry. spec_invalid_key (split_slashes (fst entry))) (pc_paths cfg) of
              Some entry \<Rightarrow>
                Inl (Error (fatal_wildcard (fst entry)
                              (case snd entry of [] \<Rightarrow> None | p # _ \<Rightarrow> Some p)))
            | None \<Rightarrow>
                Inr (map (spec_rule (case pc_url cfg of None \<Rightarrow> CWD_URL E | Some u \<Rightarrow> u))
                         (pc_paths cfg)))
    \<and> ((\<exists>err. extractAliases E = Some (log, Inl err))
         \<longleftrightarrow> (\<exists>entry\<in>set (pc_paths cfg). spec_invalid_key (split_slashes (fst entry))))
    \<and> (compileEntry url (key, cands)
          = Inl (Error (fatal_wildcard key (case cands of [] \<Rightarrow> None | p # _ \<Rightarrow> Some p)))
         \<longleftrightarrow> spec_invalid_key (split_slashes key))
    \<and> ((\<exists>a. compileEntry url (key, cands) = Inr a)
         \<longleftrightarrow> \<not> spec_invalid_key (split_slashes key))"
proof -
  let ?P = "\<lambda>entry. spec_invalid_key (split_slashes (fst entry))"
  have 1: "extractAliases E =
      Some (log,
            case find ?P (pc_paths cfg) of
              Some entry \<Rightarrow>
                Inl (Error (fatal_wildcard (fst entry)
                              (case snd entry of [] \<Rightarrow> None | p # _ \<Rightarrow> Some p)))
            | None \<Rightarrow>
                Inr (map (spec_rule (case pc_url cfg of None \<Rightarrow> CWD_URL E | Some u \<Rightarrow> u))
                         (pc_paths cfg)))"
    by (simp only: extractAliases_resolved[OF assms] map_throwing_find)
  have 2: "(\<exists>err. extractAliases E = Some (log, Inl err))
         \<longleftrightarrow> (\<exists>entry\<in>set (pc_paths cfg). ?P entry)"
  proof (cases "find ?P (pc_paths cfg)")
    case None
    then have "\<not> (\<exists>entry\<in>set (pc_paths cfg). ?P entry)"
      by (auto simp add: find_None_iff)
    with None 1 show ?thesis by simp
  next
    case (Some entry)
    then have "\<exists>entry\<in>set (pc_paths cfg). ?P entry"
      by (metis find_Some_iff nth_mem)
    with Some 1 show ?thesis by simp
  qed
  have 3: "(compileEntry url (key, cands)
          = Inl (Error (fatal_wildcard key (case cands of [] \<Rightarrow> None | p # _ \<Rightarrow> Some p)))
         \<longleftrightarrow> spec_invalid_key (split_slashes key))"
    and 4: "((\<exists>a. compileEntry url (key, cands) = Inr a)
         \<longleftrightarrow> \<not> spec_invalid_key (split_slashes key))"
    by (simp_all add: compileEntry_eq)
  from 1 2 3 4 show ?thesis by (intro conjI)
qed

theorem wildcard_key_rejected_iff_witness:
  "readConfigFile E_bad_key (CWD_PATH E_bad_key) ''tsconfig.json'' None =
     Some ([], Inr \<lparr>pc_paths = [(''@ok/*'', [''./ok/*'']), (''@a/*/*'', [''./x'']),
                               (''@later'', [''./later''])],
                    pc_url = None\<rparr>)
   \<and> extractAliases E_bad_key =
       Some ([], Inl (Error
         ''FATAL: Wildcards in tsconfig.json path entries are only supported in the last position. Invalid @a/*/*: ./x mapping''))
   \<and> compileEntry (FileURL ''file:///proj/'') (''@app/*/extra'', [''./x''])
       = Inl (Error (fatal_wildcard ''@app/*/extra'' (Some ''./x'')))
   \<and> (\<exists>a. compileEntry (FileURL ''file:///proj/'') (''@app/*'', [''./src/*'']) = Inr a)"
proof -
  have cwd: "CWD_PATH E_bad_key = ''/proj''" by (simp add: E_bad_key_def sample_simps)
  have r: "readConfigFile E_bad_key (CWD_PATH E_bad_key) ''tsconfig.json'' None =
     Some ([], Inr \<lparr>pc_paths = [(''@ok/*'', [''./ok/*'']), (''@a/*/*'', [''./x'']),
                               (''@later'', [''./later''])],
                    pc_url = None\<rparr>)"
    by (simp add: cwd E_bad_key_resolves)
  from wildcard_key_rejected_iff[OF r, of "FileURL ''file:///proj/''" "''@app/*/extra''" "[''./x'']"]
    wildcard_key_rejected_iff[OF r, of "FileURL ''file:///proj/''" "''@app/*''" "[''./src/*'']"]
    r
  show ?thesis
    by (simp add: split_samples split_more_samples spec_invalid_key_def fatal_wildcard_def)
qed

text \<open>
  Claim C2. In a chain of two configurations, \<open>A\<close> extending \<open>B\<close>, the merged \<open>paths\<close>
  give every key that \<open>A\<close> declares the entry of \<open>A\<close>, whether or not \<open>B\<close> declares it
  too, and every key that only \<open>B\<close> declares the entry of \<open>B\<close>. The objects parsed from
  the files hold each key once.
\<close>

theorem child_paths_override_parent:
  assumes "extends_chain E dir tsconfig [(fA, A), (fB, B)]"
    and "distinct (map fst (declared_paths A))"
    and "distinct (map fst (declared_paths B))"
  shows "\<exists>log r. readConfigFile E dir tsconfig ff = Some (log, Inr r)
           \<and> (\<forall>k. obj_get (pc_paths r) k =
                 (case obj_get (declared_paths A) k of
                    Some v \<Rightarrow> Some v
                  | None \<Rightarrow> obj_get (declared_paths B) k))"
proof -
  from chain_result[OF assms(1), of ff] obtain log r where
    r: "readConfigFile E dir tsconfig ff = Some (log, Inr r)"
    and k: "list_all (\<lambda>fc. distinct (map fst (declared_paths (snd fc)))) [(fA, A), (fB, B)]
             \<longrightarrow> distinct (map fst (pc_paths r))
                 \<and> (\<forall>k. obj_get (pc_paths r) k = chain_lookup [(fA, A), (fB, B)] k)"
    by blast
  from k assms(2,3) have "\<forall>k. obj_get (pc_paths r) k = chain_lookup [(fA, A), (fB, B)] k"
    by simp
  then have "\<forall>k. obj_get (pc_paths r) k =
                 (case obj_get (declared_paths A) k of
                    Some v \<Rightarrow> Some v
                  | None \<Rightarrow> obj_get (declared_paths B) k)"
    by (simp split: option.splits)
  with r show ?thesis by blast
qed

theorem child_paths_override_parent_witness:
  "extends_chain E_two ''/proj'' ''tsconfig.json''
     [(''/proj/tsconfig.json'', cfg_child), (''/proj/base/tsconfig.base.json'', cfg_base)]
   \<and> distinct (map fst (declared_paths cfg_child))
   \<and> distinct (map fst (declared_paths cfg_base))
   \<and> (\<exists>log r. readConfigFile E_two ''/proj'' ''tsconfig.json'' None = Some (log, Inr r)
         \<and> obj_get (pc_paths r) ''@x'' = Some [''./a'']
         \<and> obj_get (pc_paths r) ''@y'' = Some [''./y'']
         \<and> obj_get (pc_paths r) ''@app/*'' = Some [''./src/*'', ''./lib/*''])"
proof -
  have d1: "distinct (map fst (declared_paths cfg_child))"
    and d2: "distinct (map fst (declared_paths cfg_base))"
    by (simp_all add: declared_samples)
  from child_paths_override_parent[OF E_two_chain d1 d2, of None]
  obtain log r where
    r: "readConfigFile E_two ''/proj'' ''tsconfig.json'' None = Some (log, Inr r)"
    and k: "\<And>k. obj_get (pc_paths r) k =
                 (case obj_get (declared_paths cfg_child) k of
                    Some v \<Rightarrow> Some v
                  | None \<Rightarrow> obj_get (declared_paths cfg_base) k)"
    by blast
  have "obj_get (pc_paths r) ''@x'' = Some [''./a'']"
    "obj_get (pc_paths r) ''@y'' = Some [''./y'']"
    "obj_get (pc_paths r) ''@app/*'' = Some [''./src/*'', ''./lib/*'']"
    using k[of "''@x''"] k[of "''@y''"] k[of "''@app/*''"]
    by (simp_all add: declared_samples obj_get_def)
  with r E_two_chain d1 d2 show ?thesis by blast
qed

text \<open>
  Claim C3, amended. Along every extends chain that resolves, the merged \<open>url\<close> is the
  baseUrl of the nearest configuration, from the child towards the parents, that declares
  a baseUrl other than the empty string, resolved against the directory of the file that
  declares it; when no configuration of the chain declares one, the result has no
  \<open>url\<close>. A baseUrl declared as the empty string counts as not declared.
\<close>

theorem baseUrl_nearest_nonempty:
  assumes "extends_chain E dir tsconfig chain"
  shows "\<exists>log r. readConfigFile E dir tsconfig ff = Some (log, Inr r)
           \<and> pc_url r = nearest_nonempty_baseUrl E chain"
  using chain_result[OF assms, of ff] by blast

theorem baseUrl_nearest_nonempty_witness:
  "extends_chain E_two ''/proj'' ''tsconfig.json''
     [(''/proj/tsconfig.json'', cfg_child), (''/proj/base/tsconfig.base.json'', cfg_base)]
   \<and> (\<exists>log r. readConfigFile E_two ''/proj'' ''tsconfig.json'' None = Some (log, Inr r)
         \<and> pc_url r = Some (FileURL ''file:///proj/base/src/''))"
proof -
  have n: "nearest_nonempty_baseUrl E_two
          [(''/proj/tsconfig.json'', cfg_child), (''/proj/base/tsconfig.base.json'', cfg_base)]
        = Some (FileURL ''file:///proj/base/src/'')"
    by (simp add: E_two_def own_url_samples)
  from baseUrl_nearest_nonempty[OF E_two_chain, of None] n E_two_chain
  show ?thesis by simp
qed

text \<open>
  The claim as first stated lets any declared baseUrl of the child win. A child that
  declares \<open>baseUrl: ""\<close> over a parent that declares \<open>./src\<close> resolves to the
  parent's url, not to its own directory.
\<close>

theorem baseUrl_empty_string_counterexample:
  "extends_chain E_empty_baseUrl ''/proj'' ''tsconfig.json''
     [(''/proj/tsconfig.json'', cfg_child_empty_baseUrl),
      (''/proj/base/tsconfig.base.json'', cfg_base)]
   \<and> declared_baseUrl cfg_child_empty_baseUrl = Some ''''
   \<and> readConfigFile E_empty_baseUrl ''/proj'' ''tsconfig.json'' None =
       Some ([], Inr \<lparr>pc_paths = [(''@x'', [''./b'']), (''@y'', [''./y''])],
                      pc_url = Some (FileURL ''file:///proj/base/src/'')\<rparr>)
   \<and> nearest_declared_baseUrl E_empty_baseUrl
       [(''/proj/tsconfig.json'', cfg_child_empty_baseUrl),
        (''/proj/base/tsconfig.base.json'', cfg_base)]
       = Some (FileURL ''file:///proj/'')
   \<and> pc_url \<lparr>pc_paths = [(''@x'', [''./b'']), (''@y'', [''./y''])],
              pc_url = Some (FileURL ''file:///proj/base/src/'')\<rparr>
       \<noteq> nearest_declared_baseUrl E_empty_baseUrl
           [(''/proj/tsconfig.json'', cfg_child_empty_baseUrl),
            (''/proj/base/tsconfig.base.json'', cfg_base)]"
  by (simp add: E_empty_baseUrl_chain E_empty_baseUrl_resolves declared_samples)
     (simp add: E_empty_baseUrl_def resolve_baseUrl_def sample_simps)

text \<open>
  Claim C4. When the file at the computed path does not exist, \<open>readConfigFile\<close>
  returns \<open>{ paths: {} }\<close> without a \<open>url\<close> and throws nothing; the console receives
  one warning and nothing else. The warning names the missing file and, when a
  requesting file is given, that file as well.
\<close>

theorem missing_file_defaults:
  assumes "\<not> existsSync E (path_join E [dir, tsconfig])"
  shows "readConfigFile E dir tsconfig fromFile =
           Some ([console_warn (warn_missing (path_join E [dir, tsconfig]) fromFile)],
                 Inr \<lparr>pc_paths = [], pc_url = None\<rparr>)
         \<and> warn_missing c None = ''No '' @ c @ '' found, assuming defaults''
         \<and> (f \<noteq> '''' \<longrightarrow>
              warn_missing c (Some f) =
                ''No '' @ c @ '' (extended from '' @ f @ '')'' @ '' found, assuming defaults'')"
  using assms by (simp add: readConfigFile_missing warn_missing_def)

theorem missing_file_defaults_witness:
  "\<not> existsSync E_two (path_join E_two [''/elsewhere'', ''tsconfig.json''])
   \<and> readConfigFile E_two ''/elsewhere'' ''tsconfig.json'' (Some ''/proj/tsconfig.json'') =
       Some ([console_warn
                ''No /elsewhere/tsconfig.json (extended from /proj/tsconfig.json) found, assuming defaults''],
             Inr \<lparr>pc_paths = [], pc_url = None\<rparr>)"
proof -
  have j: "path_join E_two [''/elsewhere'', ''tsconfig.json''] = ''/elsewhere/tsconfig.json''"
    by (simp add: E_two_def sample_simps)
  have m: "\<not> existsSync E_two (path_join E_two [''/elsewhere'', ''tsconfig.json''])"
    by (simp add: j) (simp add: E_two_def sample_simps)
  from missing_file_defaults[OF m, of "Some ''/proj/tsconfig.json''"
      "''/elsewhere/tsconfig.json''" "''/proj/tsconfig.json''"] m
  show ?thesis by (simp add: j)
qed

text \<open>
  Claim C5. When a configuration file exists and is read but its text does not parse,
  \<open>readConfigFile\<close> prints a diagnostic naming that file with the parser's message and
  throws the parser's error. No file that reaches the failing one through \<open>extends\<close>
  recovers from it: each prints the message again under its own name and throws the
  same error on, up to the starting file and through \<open>extractAliases\<close>.
\<close>

theorem parse_failure_propagates:
  assumes "extends_path E dir tsconfig fs dir' tsconfig'"
    and "f' = path_join E [dir', tsconfig']"
    and "existsSync E f'"
    and "readFileSync E f' = Inr txt"
    and "JSON5_parse E txt = Inl err"
  shows "readConfigFile E dir tsconfig ff =
           Some (console_error (''FATAL: Error parsing '' @ f' @ '':: '' @ message err)
                   # map (\<lambda>f. console_error (fatal_parsing f err)) (rev fs),
                 Inl err)
         \<and> (dir = CWD_PATH E \<and> tsconfig = ''tsconfig.json'' \<longrightarrow>
              extractAliases E =
                Some (console_error (''FATAL: Error parsing '' @ f' @ '':: '' @ message err)
                        # map (\<lambda>f. console_error (fatal_parsing f err)) (rev fs),
                      Inl err))"
proof -
  have p: "parse_file E (path_join E [dir', tsconfig']) = Inl err"
    using assms(2,4,5) by (simp add: parse_file_def)
  have e: "existsSync E (path_join E [dir', tsconfig'])"
    using assms(2,3) by simp
  have r: "readConfigFile E dir tsconfig ff' =
           Some (console_error (''FATAL: Error parsing '' @ f' @ '':: '' @ message err)
                   # map (\<lambda>f. console_error (fatal_parsing f err)) (rev fs),
                 Inl err)" for ff'
    using path_throws[OF assms(1) e p, of ff'] assms(2) by (simp add: fatal_parsing_def)
  show ?thesis
  proof (intro conjI impI)
    show "readConfigFile E dir tsconfig ff =
           Some (console_error (''FATAL: Error parsing '' @ f' @ '':: '' @ message err)
                   # map (\<lambda>f. console_error (fatal_parsing f err)) (rev fs),
                 Inl err)"
      by (rule r)
  next
    assume "dir = CWD_PATH E \<and> tsconfig = ''tsconfig.json''"
    then have "readConfigFile E (CWD_PATH E) ''tsconfig.json'' None =
           Some (console_error (''FATAL: Error parsing '' @ f' @ '':: '' @ message err)
                   # map (\<lambda>f. console_error (fatal_parsing f err)) (rev fs),
                 Inl err)"
      using r[of None] by simp
    then show "extractAliases E =
                Some (console_error (''FATAL: Error parsing '' @ f' @ '':: '' @ message err)
                        # map (\<lambda>f. console_error (fatal_parsing f err)) (rev fs),
                      Inl err)"
      by (rule extractAliases_throws)
  qed
qed

theorem parse_failure_propagates_witness:
  "extends_path E_broken ''/proj'' ''tsconfig.json'' [''/proj/tsconfig.json'']
     ''/proj/base'' ''tsconfig.base.json''
   \<and> existsSync E_broken ''/proj/base/tsconfig.base.json''
   \<and> readFileSync E_broken ''/proj/base/tsconfig.base.json'' = Inr ''{ compilerOptions: {''
   \<and> JSON5_parse E_broken ''{ compilerOptions: {'' = Inl (SyntaxError ''JSON5: invalid end of input'')
   \<and> readConfigFile E_broken ''/proj'' ''tsconfig.json'' None =
       Some ([console_error
                ''FATAL: Error parsing /proj/base/tsconfig.base.json:: JSON5: invalid end of input'',
              console_error
                ''FATAL: Error parsing /proj/tsconfig.json:: JSON5: invalid end of input''],
             Inl (SyntaxError ''JSON5: invalid end of input''))
   \<and> extractAliases E_broken =
       Some ([console_error
                ''FATAL: Error parsing /proj/base/tsconfig.base.json:: JSON5: invalid end of input'',
              console_error
                ''FATAL: Error parsing /proj/tsconfig.json:: JSON5: invalid end of input''],
             Inl (SyntaxError ''JSON5: invalid end of input''))"
proof -
  have j: "''/proj/base/tsconfig.base.json'' = path_join E_broken [''/proj/base'', ''tsconfig.base.json'']"
    by (simp add: E_broken_def sample_simps)
  have e: "existsSync E_broken ''/proj/base/tsconfig.base.json''"
    by (simp add: E_broken_def sample_simps)
  have rd: "readFileSync E_broken ''/proj/base/tsconfig.base.json'' = Inr ''{ compilerOptions: {''"
    by (simp add: E_broken_def sample_env_def)
  have ps: "JSON5_parse E_broken ''{ compilerOptions: {'' = Inl (SyntaxError ''JSON5: invalid end of input'')"
    by (simp add: E_broken_def sample_env_def)
  have cwd: "CWD_PATH E_broken = ''/proj''"
    by (simp add: E_broken_def sample_simps)
  from parse_failure_propagates[OF E_broken_path j e rd ps, of None] E_broken_path e rd ps cwd
  show ?thesis by (simp add: fatal_parsing_def)
qed

text \<open>
  Claim C6, amended. For every \<open>extends\<close> reference that is not the empty string, the
  parent is looked for from the starting directory of the current resolution when the
  reference starts with a dot and from \<open>MOD_PATH\<close> otherwise; the segments of the
  reference but the last are joined to that directory, the last segment is the file
  name, and the resolution recurses with these and the current file as origin: the
  result of the file is the parent's result merged into the file's own entries, the
  parent's error is logged under the file's name and thrown on, and a parent that does
  not exist is reported by the warning that names it and the current file. An
  \<open>extends\<close> given as the empty string is treated as absent: no recursion takes
  place, the file returns its own entries and prints nothing.
\<close>

theorem extends_reference_resolution:
  fixes E :: env and dir ref pd pf :: string
  defines "pd \<equiv> path_join E ((if startsWith ref ''.'' then dir else MOD_PATH E)
                               # butlast (split_slashes ref))"
    and "pf \<equiv> last (split_slashes ref)"
  assumes "f = path_join E [dir, tsconfig]"
    and "existsSync E f"
    and "parse_file E f = Inr cfg"
    and "cfg_extends cfg = Some ref"
  shows
   "(ref \<noteq> '''' \<longrightarrow>
       readConfigFile E dir tsconfig fromFile =
         Option.bind (readConfigFile E pd pf (Some f)) (merge_parent E f cfg)
       \<and> (\<forall>log ext. readConfigFile E pd pf (Some f) = Some (log, Inr ext) \<longrightarrow>
             readConfigFile E dir tsconfig fromFile =
               Some (log,
                     Inr \<lparr>pc_paths = spread (spread [] (pc_paths ext)) (declared_paths cfg),
                          pc_url = (case own_url E f cfg of
                                      Some u \<Rightarrow> Some u
                                    | None \<Rightarrow> pc_url ext)\<rparr>))
       \<and> (\<forall>log err. readConfigFile E pd pf (Some f) = Some (log, Inl err) \<longrightarrow>
             readConfigFile E dir tsconfig fromFile =
               Some (log @ [console_error (fatal_parsing f err)], Inl err))
       \<and> (\<not> existsSync E (path_join E [pd, pf]) \<longrightarrow>
             readConfigFile E dir tsconfig fromFile =
               Some ([console_warn (warn_missing (path_join E [pd, pf]) (Some f))],
                     Inr \<lparr>pc_paths = spread (spread [] []) (declared_paths cfg),
                          pc_url = own_url E f cfg\<rparr>)))
    \<and> (ref = '''' \<longrightarrow>
         readConfigFile E dir tsconfig fromFile =
           Some ([], Inr \<lparr>pc_paths = declared_paths cfg, pc_url = own_url E f cfg\<rparr>))"
proof (intro conjI impI allI)
  assume n: "ref \<noteq> ''''"
  have p: "pd = parent_dir E dir ref" "pf = parent_file ref"
    by (simp_all add: pd_def pf_def parent_dir_def parent_file_def)
  show eq: "readConfigFile E dir tsconfig fromFile =
         Option.bind (readConfigFile E pd pf (Some f)) (merge_parent E f cfg)"
    using assms(3-6) n readConfigFile_hop[of E dir tsconfig cfg ref fromFile]
    by (simp add: p)
  {
    fix log ext
    assume "readConfigFile E pd pf (Some f) = Some (log, Inr ext)"
    then show "readConfigFile E dir tsconfig fromFile =
               Some (log,
                     Inr \<lparr>pc_paths = spread (spread [] (pc_paths ext)) (declared_paths cfg),
                          pc_url = (case own_url E f cfg of
                                      Some u \<Rightarrow> Some u
                                    | None \<Rightarrow> pc_url ext)\<rparr>)"
      by (simp add: eq merge_parent_def)
  }
  {
    fix log err
    assume "readConfigFile E pd pf (Some f) = Some (log, Inl err)"
    then show "readConfigFile E dir tsconfig fromFile =
               Some (log @ [console_error (fatal_parsing f err)], Inl err)"
      by (simp add: eq merge_parent_def)
  }
  {
    assume "\<not> existsSync E (path_join E [pd, pf])"
    then have "readConfigFile E pd pf (Some f) =
        Some ([console_warn (warn_missing (path_join E [pd, pf]) (Some f))],
              Inr \<lparr>pc_paths = [], pc_url = None\<rparr>)"
      by (rule readConfigFile_missing)
    then show "readConfigFile E dir tsconfig fromFile =
               Some ([console_warn (warn_missing (path_join E [pd, pf]) (Some f))],
                     Inr \<lparr>pc_paths = spread (spread [] []) (declared_paths cfg),
                          pc_url = own_url E f cfg\<rparr>)"
      by (simp add: eq merge_parent_def split: option.splits)
  }
next
  assume "ref = ''''"
  then show "readConfigFile E dir tsconfig fromFile =
           Some ([], Inr \<lparr>pc_paths = declared_paths cfg, pc_url = own_url E f cfg\<rparr>)"
    using assms(3-6) readConfigFile_root[of E dir tsconfig cfg fromFile] by simp
qed

theorem extends_reference_resolution_witness:
  "readConfigFile E_two ''/proj'' ''tsconfig.json'' None =
     Option.bind
       (readConfigFile E_two ''/proj/base'' ''tsconfig.base.json'' (Some ''/proj/tsconfig.json''))
       (merge_parent E_two ''/proj/tsconfig.json'' cfg_child)
   \<and> readConfigFile E_two ''/proj'' ''tsconfig.json'' None =
       Some ([], Inr \<lparr>pc_paths = [(''@x'', [''./a'']), (''@y'', [''./y'']),
                                 (''@app/*'', [''./src/*'', ''./lib/*''])],
                      pc_url = Some (FileURL ''file:///proj/base/src/'')\<rparr>)
   \<and> readConfigFile E_missing_parent ''/proj'' ''tsconfig.json'' None =
       Some ([console_warn
                ''No /proj/node_modules/@tsconfig/strictest/tsconfig.json (extended from /proj/tsconfig.json) found, assuming defaults''],
             Inr \<lparr>pc_paths = [(''@x'', [''./a''])], pc_url = None\<rparr>)
   \<and> readConfigFile E_empty_extends ''/proj'' ''tsconfig.json'' None =
       Some ([], Inr \<lparr>pc_paths = [], pc_url = None\<rparr>)"
proof -
  have two:
    "''/proj/tsconfig.json'' = path_join E_two [''/proj'', ''tsconfig.json'']"
    "existsSync E_two ''/proj/tsconfig.json''"
    "parse_file E_two ''/proj/tsconfig.json'' = Inr cfg_child"
    "cfg_extends cfg_child = Some ''./base/tsconfig.base.json''"
    by (simp_all add: E_two_def sample_simps declared_samples)
  have two_d: "path_join E_two ((if startsWith ''./base/tsconfig.base.json'' ''.''
                             then ''/proj'' else MOD_PATH E_two)
                            # butlast (split_slashes ''./base/tsconfig.base.json''))
           = ''/proj/base''"
    "last (split_slashes ''./base/tsconfig.base.json'') = ''tsconfig.base.json''"
    by (simp_all add: E_two_def startsWith_def sample_simps)
  have two_n: "''./base/tsconfig.base.json'' \<noteq> ''''" by simp
  from extends_reference_resolution[OF two, where fromFile = None, unfolded two_d] two_n
  have a1: "readConfigFile E_two ''/proj'' ''tsconfig.json'' None =
     Option.bind
       (readConfigFile E_two ''/proj/base'' ''tsconfig.base.json'' (Some ''/proj/tsconfig.json''))
       (merge_parent E_two ''/proj/tsconfig.json'' cfg_child)"
    by blast
  have a2: "readConfigFile E_two ''/proj'' ''tsconfig.json'' None =
       Some ([], Inr \<lparr>pc_paths = [(''@x'', [''./a'']), (''@y'', [''./y'']),
                                 (''@app/*'', [''./src/*'', ''./lib/*''])],
                      pc_url = Some (FileURL ''file:///proj/base/src/'')\<rparr>)"
    by (rule E_two_resolves)
  have mp:
    "''/proj/tsconfig.json'' = path_join E_missing_parent [''/proj'', ''tsconfig.json'']"
    "existsSync E_missing_parent ''/proj/tsconfig.json''"
    "parse_file E_missing_parent ''/proj/tsconfig.json'' = Inr cfg_strictest_child"
    "cfg_extends cfg_strictest_child = Some ''@tsconfig/strictest/tsconfig.json''"
    by (simp_all add: E_missing_parent_def sample_simps strictest_child_samples)
  have mp_d: "path_join E_missing_parent
                ((if startsWith ''@tsconfig/strictest/tsconfig.json'' ''.''
                  then ''/proj'' else MOD_PATH E_missing_parent)
                 # butlast (split_slashes ''@tsconfig/strictest/tsconfig.json''))
           = ''/proj/node_modules/@tsconfig/strictest''"
    "last (split_slashes ''@tsconfig/strictest/tsconfig.json'') = ''tsconfig.json''"
    by (simp_all add: E_missing_parent_def sample_simps strictest_samples)
  have mp_j: "path_join E_missing_parent
                [''/proj/node_modules/@tsconfig/strictest'', ''tsconfig.json'']
       = ''/proj/node_modules/@tsconfig/strictest/tsconfig.json''"
    by (simp add: E_missing_parent_def sample_simps strictest_samples)
  have mp_m: "\<not> existsSync E_missing_parent
                ''/proj/node_modules/@tsconfig/strictest/tsconfig.json''"
    by (simp add: E_missing_parent_def sample_simps)
  have mp_n: "''@tsconfig/strictest/tsconfig.json'' \<noteq> ''''" by simp
  from extends_reference_resolution[OF mp, where fromFile = None, unfolded mp_d mp_j] mp_n mp_m
  have "readConfigFile E_missing_parent ''/proj'' ''tsconfig.json'' None =
       Some ([console_warn
                (warn_missing ''/proj/node_modules/@tsconfig/strictest/tsconfig.json''
                   (Some ''/proj/tsconfig.json''))],
             Inr \<lparr>pc_paths = spread (spread [] []) (declared_paths cfg_strictest_child),
                   pc_url = own_url E_missing_parent ''/proj/tsconfig.json'' cfg_strictest_child\<rparr>)"
    by blast
  then have b: "readConfigFile E_missing_parent ''/proj'' ''tsconfig.json'' None =
       Some ([console_warn
                ''No /proj/node_modules/@tsconfig/strictest/tsconfig.json (extended from /proj/tsconfig.json) found, assuming defaults''],
             Inr \<lparr>pc_paths = [(''@x'', [''./a''])], pc_url = None\<rparr>)"
    by (simp add: strictest_child_samples warn_missing_def spread_def)
  have ee:
    "''/proj/tsconfig.json'' = path_join E_empty_extends [''/proj'', ''tsconfig.json'']"
    "existsSync E_empty_extends ''/proj/tsconfig.json''"
    "parse_file E_empty_extends ''/proj/tsconfig.json'' = Inr cfg_empty_extends"
    "cfg_extends cfg_empty_extends = Some ''''"
    by (simp_all add: E_empty_extends_def sample_simps declared_samples)
  from extends_reference_resolution[OF ee, where fromFile = None]
  have "readConfigFile E_empty_extends ''/proj'' ''tsconfig.json'' None =
           Some ([], Inr \<lparr>pc_paths = declared_paths cfg_empty_extends,
                          pc_url = own_url E_empty_extends ''/proj/tsconfig.json''
                                     cfg_empty_extends\<rparr>)"
    by blast
  then have c: "readConfigFile E_empty_extends ''/proj'' ''tsconfig.json'' None =
       Some ([], Inr \<lparr>pc_paths = [], pc_url = None\<rparr>)"
    by (simp add: declared_samples) (simp add: E_empty_extends_def own_url_samples)
  from a1 a2 b c show ?thesis by (intro conjI)
qed

text \<open>
  The claim as first stated covers every reference that is present. A file with
  \<open>extends: ""\<close> is resolved without a recursive call: it returns its own entries and
  prints nothing, where the call the claim describes would read the directory
  \<open>MOD_PATH\<close> and throw.
\<close>

theorem empty_extends_counterexample:
  "existsSync E_empty_extends (path_join E_empty_extends [''/proj'', ''tsconfig.json''])
   \<and> parse_file E_empty_extends (path_join E_empty_extends [''/proj'', ''tsconfig.json''])
       = Inr cfg_empty_extends
   \<and> cfg_extends cfg_empty_extends = Some ''''
   \<and> readConfigFile E_empty_extends ''/proj'' ''tsconfig.json'' None =
       Some ([], Inr \<lparr>pc_paths = [], pc_url = None\<rparr>)
   \<and> Option.bind
         (readConfigFile E_empty_extends
            (path_join E_empty_extends
               ((if startsWith '''' ''.'' then ''/proj'' else MOD_PATH E_empty_extends)
                # butlast (split_slashes '''')))
            (last (split_slashes ''''))
            (Some (path_join E_empty_extends [''/proj'', ''tsconfig.json''])))
         (merge_parent E_empty_extends
            (path_join E_empty_extends [''/proj'', ''tsconfig.json'']) cfg_empty_extends)
       = Some ([console_error
                  ''FATAL: Error parsing /proj/node_modules:: EISDIR: illegal operation on a directory, read'',
                console_error
                  ''FATAL: Error parsing /proj/tsconfig.json:: EISDIR: illegal operation on a directory, read''],
               Inl (SystemError ''EISDIR: illegal operation on a directory, read''))
   \<and> readConfigFile E_empty_extends ''/proj'' ''tsconfig.json'' None \<noteq>
       Option.bind
         (readConfigFile E_empty_extends
            (path_join E_empty_extends
               ((if startsWith '''' ''.'' then ''/proj'' else MOD_PATH E_empty_extends)
                # butlast (split_slashes '''')))
            (last (split_slashes ''''))
            (Some (path_join E_empty_extends [''/proj'', ''tsconfig.json''])))
         (merge_parent E_empty_extends
            (path_join E_empty_extends [''/proj'', ''tsconfig.json'']) cfg_empty_extends)"
proof -
  have j: "path_join E_empty_extends [''/proj'', ''tsconfig.json''] = ''/proj/tsconfig.json''"
    by (simp add: E_empty_extends_def sample_simps)
  have d: "path_join E_empty_extends
               ((if startsWith '''' ''.'' then ''/proj'' else MOD_PATH E_empty_extends)
                # butlast (split_slashes ''''))
           = ''/proj/node_modules''"
    by (simp add: E_empty_extends_def startsWith_def sample_simps)
  have l: "last (split_slashes '''') = ''''"
    by (simp add: sample_simps)
  have e: "existsSync E_empty_extends ''/proj/tsconfig.json''"
    by (simp add: E_empty_extends_def sample_simps)
  have p: "parse_file E_empty_extends ''/proj/tsconfig.json'' = Inr cfg_empty_extends"
    by (simp add: E_empty_extends_def sample_simps)
  show ?thesis
    unfolding j d l
    by (simp add: e p declared_samples E_empty_extends_resolves E_empty_extends_parent
        merge_parent_def fatal_parsing_def)
qed

text \<open>
  Claim C7. For an entry with more than one candidate, the compiled rule's \<open>path\<close> is
  the first candidate, and the outcome is that of the entry with the first candidate
  alone: the further candidates have no effect.
\<close>

theorem first_candidate_only:
  assumes "1 < length cands"
  shows "compileEntry url (key, cands) = compileEntry url (key, [hd cands])
         \<and> (\<forall>a. compileEntry url (key, cands) = Inr a \<longrightarrow> alias_path a = Some (hd cands))"
proof -
  from assms obtain p q rest where c: "cands = p # q # rest"
    by (cases cands; cases "tl cands") auto
  show ?thesis
    unfolding c compileEntry_eq by auto
qed

theorem first_candidate_only_witness:
  "1 < length [''./src/*'', ''./lib/*'']
   \<and> compileEntry (FileURL ''file:///proj/'') (''@app/*'', [''./src/*'', ''./lib/*''])
       = compileEntry (FileURL ''file:///proj/'') (''@app/*'', [''./src/*''])
   \<and> compileEntry (FileURL ''file:///proj/'') (''@app/*'', [''./src/*'', ''./lib/*''])
       = Inr \<lparr>alias_filter = [''@app''], isWildcard = True, alias_path = Some ''./src/*'',
               alias_url = FileURL ''file:///proj/''\<rparr>"
proof -
  have h: "1 < length [''./src/*'', ''./lib/*'']" by simp
  have v: "compileEntry (FileURL ''file:///proj/'') (''@app/*'', [''./src/*''])
       = Inr \<lparr>alias_filter = [''@app''], isWildcard = True, alias_path = Some ''./src/*'',
               alias_url = FileURL ''file:///proj/''\<rparr>"
    by (simp add: compileEntry_eq split_samples spec_invalid_key_def)
  from first_candidate_only[OF h, of "FileURL ''file:///proj/''" "''@app/*''"] v
  show ?thesis by simp
qed

text \<open>
  Claim C8. The key \<open>@app/*\<close> with first candidate \<open>./src/*\<close> compiles to the rule
  with filter \<open>["@app"]\<close>, \<open>isWildcard = true\<close> and path \<open>./src/*\<close>. In general a
  compiled rule is a wildcard rule exactly when the last segment of its key is \<open>*\<close>;
  then its filter is the segments without the last, otherwise all the segments.
\<close>

theorem wildcard_rule_shape:
  "compileEntry url (''@app/*'', ''./src/*'' # others) =
     Inr \<lparr>alias_filter = [''@app''], isWildcard = True, alias_path = Some ''./src/*'',
           alias_url = url\<rparr>
   \<and> (compileEntry url (key, cands) = Inr a \<longrightarrow>
        isWildcard a = (last (split_slashes key) = ''*'')
        \<and> alias_filter a = (if last (split_slashes key) = ''*''
                            then butlast (split_slashes key)
                            else split_slashes key))"
proof -
  have 1: "compileEntry url (''@app/*'', ''./src/*'' # others) =
     Inr \<lparr>alias_filter = [''@app''], isWildcard = True, alias_path = Some ''./src/*'',
           alias_url = url\<rparr>"
    by (simp add: compileEntry_eq split_samples spec_invalid_key_def)
  have 2: "compileEntry url (key, cands) = Inr a \<longrightarrow>
        isWildcard a = (last (split_slashes key) = ''*'')
        \<and> alias_filter a = (if last (split_slashes key) = ''*''
                            then butlast (split_slashes key)
                            else split_slashes key)"
    unfolding compileEntry_eq by (auto split: if_splits)
  from 1 2 show ?thesis by (rule conjI)
qed

theorem wildcard_rule_shape_witness:
  "compileEntry (FileURL ''file:///proj/'') (''@app/*'', [''./src/*'']) =
     Inr \<lparr>alias_filter = [''@app''], isWildcard = True, alias_path = Some ''./src/*'',
           alias_url = FileURL ''file:///proj/''\<rparr>
   \<and> compileEntry (FileURL ''file:///proj/'') (''@x'', [''./a'']) =
     Inr \<lparr>alias_filter = [''@x''], isWildcard = False, alias_path = Some ''./a'',
           alias_url = FileURL ''file:///proj/''\<rparr>
   \<and> isWildcard \<lparr>alias_filter = [''@x''], isWildcard = False, alias_path = Some ''./a'',
           alias_url = FileURL ''file:///proj/''\<rparr> = (last (split_slashes ''@x'') = ''*'')
   \<and> alias_filter \<lparr>alias_filter = [''@x''], isWildcard = False, alias_path = Some ''./a'',
           alias_url = FileURL ''file:///proj/''\<rparr> = split_slashes ''@x''"
proof -
  have v: "compileEntry (FileURL ''file:///proj/'') (''@x'', [''./a'']) =
     Inr \<lparr>alias_filter = [''@x''], isWildcard = False, alias_path = Some ''./a'',
           alias_url = FileURL ''file:///proj/''\<rparr>"
    by (simp add: compileEntry_eq split_samples spec_invalid_key_def)
  from wildcard_rule_shape[of "FileURL ''file:///proj/''" "[]" "''@x''" "[''./a'']"
      "\<lparr>alias_filter = [''@x''], isWildcard = False, alias_path = Some ''./a'',
           alias_url = FileURL ''file:///proj/''\<rparr>"] v
  show ?thesis by (simp add: split_samples)
qed




text \<open>
  Claim C10. In every list of rules that \<open>extractAliases\<close> returns, no rule has a
  filter segment equal to \<open>*\<close>.
\<close>

theorem filters_have_no_wildcard:
  assumes "extractAliases E = Some (log, Inr rules)" and "a \<in> set rules"
  shows "''*'' \<notin> set (alias_filter a)"
proof -
  from extractAliases_Inr[OF assms(1)] obtain cfg :: PartialConfig where
    m: "map_throwing (compileEntry (case pc_url cfg of None \<Rightarrow> CWD_URL E | Some u \<Rightarrow> u))
          (pc_paths cfg) = Inr rules"
    by blast
  from map_throwing_Inr[OF m assms(2)] obtain entry where
    "compileEntry (case pc_url cfg of None \<Rightarrow> CWD_URL E | Some u \<Rightarrow> u) entry = Inr a"
    by blast
  then show ?thesis by (rule compileEntry_no_star)
qed

theorem filters_have_no_wildcard_witness:
  "extractAliases E_two =
     Some ([], Inr [\<lparr>alias_filter = [''@x''], isWildcard = False, alias_path = Some ''./a'',
                      alias_url = FileURL ''file:///proj/base/src/''\<rparr>,
                    \<lparr>alias_filter = [''@y''], isWildcard = False, alias_path = Some ''./y'',
                      alias_url = FileURL ''file:///proj/base/src/''\<rparr>,
                    \<lparr>alias_filter = [''@app''], isWildcard = True, alias_path = Some ''./src/*'',
                      alias_url = FileURL ''file:///proj/base/src/''\<rparr>])
   \<and> ''*'' \<notin> set (alias_filter
         \<lparr>alias_filter = [''@app''], isWildcard = True, alias_path = Some ''./src/*'',
           alias_url = FileURL ''file:///proj/base/src/''\<rparr>)"
proof -
  have "''*'' \<notin> set (alias_filter
         \<lparr>alias_filter = [''@app''], isWildcard = True, alias_path = Some ''./src/*'',
           alias_url = FileURL ''file:///proj/base/src/''\<rparr>)"
    by (rule filters_have_no_wildcard[OF E_two_aliases]) simp
  with E_two_aliases show ?thesis by (rule conjI)
qed

end
